theory Spec2Isabelle
  imports Complex_Main
begin

section \<open>Python values, exceptions and strings\<close>

text \<open>
  The development embeds \<^verbatim>\<open>csv_processor/management/commands/process_csv.py\<close> and the two
  models of \<^verbatim>\<open>csv_processor/models.py\<close>.  A Python \<^verbatim>\<open>str\<close> is a \<^typ>\<open>string\<close>; a character
  stands for a code point below 256.  An exception is a value: its class, as far as an
  \<^verbatim>\<open>except\<close> clause of the source tells classes apart, and the text \<^verbatim>\<open>str(e)\<close>.  Every class
  below is a subclass of \<^verbatim>\<open>Exception\<close>; \<open>RequestException\<close> stands for
  \<^verbatim>\<open>requests.RequestException\<close> and all its subclasses.
\<close>

datatype exn_class =
  RequestException | PlainException | TypeError | AttributeError | KeyError | IndexError
  | OSError | OtherError

datatype exn = Exn exn_class string

fun str_exn :: "exn \<Rightarrow> string" where
  "str_exn (Exn c msg) = msg"

fun class_of :: "exn \<Rightarrow> exn_class" where
  "class_of (Exn c msg) = c"

text \<open>\<^verbatim>\<open>str.isspace\<close> on the code points below 256, and \<^verbatim>\<open>str.strip()\<close>.\<close>

definition isspace :: "char \<Rightarrow> bool" where
  "isspace c =
     (let n = (of_char c :: nat)
      in (9 \<le> n \<and> n \<le> 13) \<or> (28 \<le> n \<and> n \<le> 32) \<or> n = 133 \<or> n = 160)"

definition strip :: "string \<Rightarrow> string" where
  "strip s = rev (dropWhile isspace (rev (dropWhile isspace s)))"

definition endswith :: "string \<Rightarrow> string \<Rightarrow> bool" where
  "endswith s suf = (length suf \<le> length s \<and> drop (length s - length suf) s = suf)"

text \<open>\<^verbatim>\<open>sub in s\<close> for two strings.\<close>

fun str_contains :: "string \<Rightarrow> string \<Rightarrow> bool" where
  "str_contains sub [] = (sub = [])"
| "str_contains sub (c # cs) = (take (length sub) (c # cs) = sub \<or> str_contains sub cs)"

text \<open>The decimal digit of a number below ten, and \<^verbatim>\<open>str(n)\<close> for a non-negative integer.\<close>

definition digit_char :: "nat \<Rightarrow> char" where
  "digit_char d = ''0123456789'' ! d"

fun str_nat :: "nat \<Rightarrow> string" where
  "str_nat n =
     (if n < 10 then [digit_char n]
      else str_nat (n div 10) @ [digit_char (n mod 10)])"

definition isdigit :: "char \<Rightarrow> bool" where
  "isdigit c = (c \<in> set ''0123456789'')"

section \<open>Decoded JSON\<close>

text \<open>
  What \<^verbatim>\<open>response.json()\<close> returns: \<^verbatim>\<open>None\<close>, a bool, an int, a float, a str, a list or a
  dict with string keys.  A dict is the list of its items; \<open>map_of\<close> reads a key.
\<close>

datatype json =
  JNull | JBool bool | JInt int | JFloat real | JStr string
  | JArr "json list" | JObj "(string \<times> json) list"

fun type_name :: "json \<Rightarrow> string" where
  "type_name JNull = ''NoneType''"
| "type_name (JBool b) = ''bool''"
| "type_name (JInt i) = ''int''"
| "type_name (JFloat x) = ''float''"
| "type_name (JStr s) = ''str''"
| "type_name (JArr xs) = ''list''"
| "type_name (JObj kvs) = ''dict''"

text \<open>\<^verbatim>\<open>key in data\<close>, for a string \<open>key\<close>.\<close>

fun py_in :: "string \<Rightarrow> json \<Rightarrow> exn + bool" where
  "py_in key (JObj kvs) = Inr (map_of kvs key \<noteq> None)"
| "py_in key (JArr xs) = Inr (\<exists>x \<in> set xs. x = JStr key)"
| "py_in key (JStr s) = Inr (str_contains key s)"
| "py_in key v =
     Inl (Exn TypeError (''argument of type '' @ [CHR 0x27] @ type_name v @ [CHR 0x27]
                          @ '' is not iterable''))"

text \<open>\<^verbatim>\<open>data[key]\<close>, for a string \<open>key\<close>.\<close>

fun py_getitem :: "json \<Rightarrow> string \<Rightarrow> exn + json" where
  "py_getitem (JObj kvs) key =
     (case map_of kvs key of
        Some v \<Rightarrow> Inr v
      | None \<Rightarrow> Inl (Exn KeyError ([CHR 0x27] @ key @ [CHR 0x27])))"
| "py_getitem (JArr xs) key =
     Inl (Exn TypeError ''list indices must be integers or slices, not str'')"
| "py_getitem (JStr s) key = Inl (Exn TypeError ''string indices must be integers'')"
| "py_getitem v key =
     Inl (Exn TypeError ([CHR 0x27] @ type_name v @ [CHR 0x27]
                          @ '' object is not subscriptable''))"

text \<open>\<^verbatim>\<open>len(v)\<close>.\<close>

fun py_len :: "json \<Rightarrow> exn + nat" where
  "py_len (JArr xs) = Inr (length xs)"
| "py_len (JStr s) = Inr (length s)"
| "py_len (JObj kvs) = Inr (length kvs)"
| "py_len v =
     Inl (Exn TypeError (''object of type '' @ [CHR 0x27] @ type_name v @ [CHR 0x27]
                          @ '' has no len()''))"

text \<open>\<^verbatim>\<open>v[0]\<close>.\<close>

fun py_getitem0 :: "json \<Rightarrow> exn + json" where
  "py_getitem0 (JArr []) = Inl (Exn IndexError ''list index out of range'')"
| "py_getitem0 (JArr (x # xs)) = Inr x"
| "py_getitem0 (JStr []) = Inl (Exn IndexError ''string index out of range'')"
| "py_getitem0 (JStr (c # cs)) = Inr (JStr [c])"
| "py_getitem0 (JObj kvs) = Inl (Exn KeyError ''0'')"
| "py_getitem0 v =
     Inl (Exn TypeError ([CHR 0x27] @ type_name v @ [CHR 0x27]
                          @ '' object is not subscriptable''))"

text \<open>\<^verbatim>\<open>v.get(key, default)\<close>: only a dict has the method.\<close>

fun py_get :: "json \<Rightarrow> string \<Rightarrow> json \<Rightarrow> exn + json" where
  "py_get (JObj kvs) key dflt = Inr (case map_of kvs key of Some v \<Rightarrow> v | None \<Rightarrow> dflt)"
| "py_get v key dflt =
     Inl (Exn AttributeError ([CHR 0x27] @ type_name v @ [CHR 0x27]
                               @ '' object has no attribute '' @ [CHR 0x27] @ ''get''
                               @ [CHR 0x27]))"

section \<open>The csv module\<close>

text \<open>
  A file is what \<^verbatim>\<open>open\<close> and \<^verbatim>\<open>csv.reader\<close> make of it: either \<^verbatim>\<open>open\<close> raises, or the
  reader yields a sequence of records (lists of fields, \<open>[]\<close> for a blank line) and
  then stops, at the end of the file or with an exception (a decoding error, a
  \<^verbatim>\<open>csv.Error\<close>).
\<close>

datatype csv_file = Unreadable exn | Records "string list list" "exn option"

text \<open>
  A row of \<^verbatim>\<open>csv.DictReader\<close>: keys are the field names and, for the surplus fields of a
  long row, the \<^verbatim>\<open>restkey\<close> \<^verbatim>\<open>None\<close>; a value is a field, \<^verbatim>\<open>None\<close> (the \<^verbatim>\<open>restval\<close> of a short
  row) or the list of surplus fields.
\<close>

datatype csv_value = VStr string | VNone | VList "string list"

type_synonym csv_row = "string option \<rightharpoonup> csv_value"

definition make_row :: "string list \<Rightarrow> string list \<Rightarrow> csv_row" where
  "make_row fieldnames row =
     (let d = fold (\<lambda>(k, v) m. m(Some k \<mapsto> VStr v)) (zip fieldnames row) Map.empty;
          lf = length fieldnames;
          lr = length row
      in if lf < lr then d(None \<mapsto> VList (drop lf row))
         else if lf > lr then fold (\<lambda>k m. m(Some k \<mapsto> VNone)) (drop lr fieldnames) d
         else d)"

text \<open>The first record is the header; blank records after it are skipped.\<close>

definition DictReader :: "string list list \<Rightarrow> csv_row list" where
  "DictReader recs =
     (case recs of
        [] \<Rightarrow> []
      | fieldnames # rest \<Rightarrow> map (make_row fieldnames) (filter (\<lambda>r. r \<noteq> []) rest))"

text \<open>\<^verbatim>\<open>row.get(key, '')\<close> and \<^verbatim>\<open>.strip()\<close> on its result.\<close>

definition row_get :: "csv_row \<Rightarrow> string \<Rightarrow> csv_value" where
  "row_get row key = (case row (Some key) of None \<Rightarrow> VStr [] | Some v \<Rightarrow> v)"

fun py_strip :: "csv_value \<Rightarrow> exn + string" where
  "py_strip (VStr s) = Inr (strip s)"
| "py_strip VNone =
     Inl (Exn AttributeError ([CHR 0x27] @ ''NoneType'' @ [CHR 0x27]
            @ '' object has no attribute '' @ [CHR 0x27] @ ''strip'' @ [CHR 0x27]))"
| "py_strip (VList xs) =
     Inl (Exn AttributeError ([CHR 0x27] @ ''list'' @ [CHR 0x27]
            @ '' object has no attribute '' @ [CHR 0x27] @ ''strip'' @ [CHR 0x27]))"

section \<open>pathlib and datetime\<close>

text \<open>\<^verbatim>\<open>name.rfind('.')\<close>, and \<^verbatim>\<open>PurePath.suffix\<close> and \<^verbatim>\<open>PurePath.stem\<close> on a file name.\<close>

definition rfind_dot :: "string \<Rightarrow> int" where
  "rfind_dot name =
     (if CHR ''.'' \<in> set name
      then int (length name) - 1 - int (length (takeWhile (\<lambda>c. c \<noteq> CHR ''.'') (rev name)))
      else - 1)"

definition suffix :: "string \<Rightarrow> string" where
  "suffix name =
     (let i = rfind_dot name
      in if 0 < i \<and> i < int (length name) - 1 then drop (nat i) name else [])"

definition stem :: "string \<Rightarrow> string" where
  "stem name =
     (let i = rfind_dot name
      in if 0 < i \<and> i < int (length name) - 1 then take (nat i) name else name)"

record datetime =
  year :: nat
  month :: nat
  day :: nat
  hour :: nat
  minute :: nat
  second :: nat

definition pad2 :: "nat \<Rightarrow> string" where
  "pad2 n = [digit_char (n div 10 mod 10), digit_char (n mod 10)]"

text \<open>\<^verbatim>\<open>strftime('%Y%m%d_%H%M%S')\<close>.\<close>

definition strftime :: "datetime \<Rightarrow> string" where
  "strftime dt =
     str_nat (year dt) @ pad2 (month dt) @ pad2 (day dt) @ ''_''
       @ pad2 (hour dt) @ pad2 (minute dt) @ pad2 (second dt)"

section \<open>Models, settings and the world outside\<close>

text \<open>
  \<^verbatim>\<open>CSVProcessingRecord\<close> and \<^verbatim>\<open>EmailRecord\<close> of \<^verbatim>\<open>models.py\<close>.  \<open>pk\<close> is the primary key
  of a processing record; \<open>processing_record\<close> is the foreign key of an email record.
  \<open>state\<close> and \<open>city\<close> hold the Python value assigned to the field, \<open>JNull\<close> being \<^verbatim>\<open>None\<close>
  (a SQL NULL, also the default of the field).  The \<^verbatim>\<open>processed_at\<close> columns and the key
  of an email record play no part in the command and are left out.
\<close>

record CSVProcessingRecord =
  pk :: nat
  filename :: string
  total_rows :: int
  successful_rows :: int
  failed_rows :: int
  status :: string

record EmailRecord =
  processing_record :: nat
  email_address :: string
  zip_code :: string
  state :: json
  city :: json
  success :: bool
  error_message :: "string option"

text \<open>
  The settings module is not part of the sources at hand, so its values are parameters.
  \<open>ZIP_API_URL\<close> is the template as the function \<^verbatim>\<open>settings.ZIP_API_URL.format(zip=z)\<close> of
  \<open>z\<close>; the two optional settings are read with \<^verbatim>\<open>getattr\<close> and a default.
\<close>

record settings =
  ZIP_API_URL :: "string \<Rightarrow> string"
  ZIP_API_TIMEOUT :: "nat option"
  DEFAULT_FROM_EMAIL :: "string option"

record response =
  status_code :: nat
  reason :: string
  url :: string
  json_result :: "exn + json"

record mail =
  subject :: string
  message :: string
  from_email :: string
  recipient_list :: "string list"

text \<open>
  The collaborators, as functions of what they are asked: the HTTP service and the mail
  transport also see how many calls came before, so that two calls with the same
  argument may differ.  \<open>py_str\<close> is \<^verbatim>\<open>str(v)\<close> on a decoded JSON value that is not a string.
\<close>

record env =
  conf :: settings
  requests_get :: "nat \<Rightarrow> string \<Rightarrow> nat \<Rightarrow> exn + response"
  send_mail :: "nat \<Rightarrow> mail \<Rightarrow> exn option"
  now :: "nat \<Rightarrow> datetime"
  shutil_move :: "string \<Rightarrow> string \<Rightarrow> exn option"
  py_str :: "json \<Rightarrow> string"

text \<open>
  The state the command reads and writes: the two directories (file names with their
  contents), the two tables, the requests issued, the mails handed to the transport and
  those it accepted, and the number of clock readings.  Writing to a table always
  succeeds, and the log and the console are not part of the state.
\<close>

record world =
  incoming :: "(string \<times> csv_file) list"
  processed :: "(string \<times> csv_file) list"
  csv_records :: "CSVProcessingRecord list"
  email_records :: "EmailRecord list"
  api_calls :: "(string \<times> nat) list"
  mail_attempts :: "mail list"
  outbox :: "mail list"
  clock_reads :: nat

subsection \<open>The object manager\<close>

definition fresh_pk :: "world \<Rightarrow> nat" where
  "fresh_pk w = Suc (fold max (map pk (csv_records w)) 0)"

text \<open>\<^verbatim>\<open>CSVProcessingRecord.objects.create(filename=name, status='processing')\<close>.\<close>

definition create_csv_record :: "string \<Rightarrow> world \<Rightarrow> CSVProcessingRecord \<times> world" where
  "create_csv_record name w =
     (let r = \<lparr>pk = fresh_pk w, filename = name, total_rows = 0, successful_rows = 0,
                failed_rows = 0, status = ''processing''\<rparr>
      in (r, w\<lparr>csv_records := csv_records w @ [r]\<rparr>))"

text \<open>\<^verbatim>\<open>record.save()\<close>: the row with the key of the object takes the object's fields.\<close>

definition save :: "CSVProcessingRecord \<Rightarrow> world \<Rightarrow> world" where
  "save r w = w\<lparr>csv_records := map (\<lambda>x. if pk x = pk r then r else x) (csv_records w)\<rparr>"

text \<open>\<^verbatim>\<open>EmailRecord.objects.create(...)\<close>.\<close>

definition create_email_record :: "EmailRecord \<Rightarrow> world \<Rightarrow> world" where
  "create_email_record e w = w\<lparr>email_records := email_records w @ [e]\<rparr>"

section \<open>The command\<close>

subsection \<open>\<^verbatim>\<open>get_location_from_zip\<close>\<close>

text \<open>\<^verbatim>\<open>Response.raise_for_status()\<close>: an \<^verbatim>\<open>HTTPError\<close> for a status from 400 to 599.\<close>

definition raise_for_status :: "response \<Rightarrow> exn option" where
  "raise_for_status resp =
     (if 400 \<le> status_code resp \<and> status_code resp < 500
      then Some (Exn RequestException
                  (str_nat (status_code resp) @ '' Client Error: '' @ reason resp
                     @ '' for url: '' @ url resp))
      else if 500 \<le> status_code resp \<and> status_code resp < 600
      then Some (Exn RequestException
                  (str_nat (status_code resp) @ '' Server Error: '' @ reason resp
                     @ '' for url: '' @ url resp))
      else None)"

text \<open>Lines 203 to 212: state and city out of the decoded body.\<close>

definition extract_location :: "json \<Rightarrow> exn + json \<times> json" where
  "extract_location data =
     (case py_in ''places'' data of
        Inl e \<Rightarrow> Inl e
      | Inr False \<Rightarrow> Inr (JStr ''Unknown'', JStr ''Unknown'')
      | Inr True \<Rightarrow>
          (case py_getitem data ''places'' of
             Inl e \<Rightarrow> Inl e
           | Inr places \<Rightarrow>
               (case py_len places of
                  Inl e \<Rightarrow> Inl e
                | Inr n \<Rightarrow>
                    if n > 0 then
                      (case py_getitem0 places of
                         Inl e \<Rightarrow> Inl e
                       | Inr place \<Rightarrow>
                           (case py_get place ''state'' (JStr ''Unknown'') of
                              Inl e \<Rightarrow> Inl e
                            | Inr st \<Rightarrow>
                                (case py_get place ''place name'' (JStr ''Unknown'') of
                                   Inl e \<Rightarrow> Inl e
                                 | Inr ct \<Rightarrow> Inr (st, ct))))
                    else Inr (JStr ''Unknown'', JStr ''Unknown''))))"

text \<open>The body of the \<^verbatim>\<open>try\<close> of \<^verbatim>\<open>get_location_from_zip\<close>, given what \<^verbatim>\<open>requests.get\<close> did.\<close>

definition fetch_location :: "exn + response \<Rightarrow> exn + json \<times> json" where
  "fetch_location got =
     (case got of
        Inl e \<Rightarrow> Inl e
      | Inr resp \<Rightarrow>
          (case raise_for_status resp of
             Some e \<Rightarrow> Inl e
           | None \<Rightarrow>
               (case json_result resp of
                  Inl e \<Rightarrow> Inl e
                | Inr data \<Rightarrow> extract_location data)))"

text \<open>The \<^verbatim>\<open>except requests.RequestException\<close> clause: other exceptions pass through.\<close>

fun normalize_failure :: "string \<Rightarrow> exn + 'a \<Rightarrow> exn + 'a" where
  "normalize_failure zipc (Inl (Exn RequestException msg)) =
     Inl (Exn PlainException (''API error for ZIP '' @ zipc @ '': '' @ msg))"
| "normalize_failure zipc r = r"

text \<open>\<^verbatim>\<open>getattr(settings, 'ZIP_API_TIMEOUT', 5)\<close>.\<close>

definition zip_api_timeout :: "env \<Rightarrow> nat" where
  "zip_api_timeout ev = (case ZIP_API_TIMEOUT (conf ev) of None \<Rightarrow> 5 | Some t \<Rightarrow> t)"

text \<open>What \<^verbatim>\<open>requests.get(url, timeout=timeout)\<close> does when called in world \<open>w\<close>.\<close>

definition api_call :: "env \<Rightarrow> string \<Rightarrow> world \<Rightarrow> exn + response" where
  "api_call ev zipc w =
     requests_get ev (length (api_calls w)) (ZIP_API_URL (conf ev) zipc) (zip_api_timeout ev)"

definition get_location_from_zip ::
  "env \<Rightarrow> string \<Rightarrow> world \<Rightarrow> (exn + json \<times> json) \<times> world" where
  "get_location_from_zip ev zipc w =
     (normalize_failure zipc (fetch_location (api_call ev zipc w)),
      w\<lparr>api_calls := api_calls w @ [(ZIP_API_URL (conf ev) zipc, zip_api_timeout ev)]\<rparr>)"

subsection \<open>\<^verbatim>\<open>send_email_to_address\<close>\<close>

text \<open>A value in an f-string: a string as it is, anything else through \<^verbatim>\<open>str\<close>.\<close>

definition fmt :: "env \<Rightarrow> json \<Rightarrow> string" where
  "fmt ev v = (case v of JStr s \<Rightarrow> s | _ \<Rightarrow> py_str ev v)"

definition nl :: string where
  "nl = [CHR 0x0A]"

definition build_mail :: "env \<Rightarrow> string \<Rightarrow> string \<Rightarrow> json \<Rightarrow> json \<Rightarrow> mail" where
  "build_mail ev email zipc st ct =
     \<lparr>subject = ''Location Information for ZIP '' @ zipc,
      message = nl @ ''Hello,'' @ nl @ nl
                @ ''Here is the location information for ZIP code '' @ zipc @ '':'' @ nl @ nl
                @ ''City: '' @ fmt ev ct @ nl
                @ ''State: '' @ fmt ev st @ nl @ nl
                @ ''Thank you!'' @ nl,
      from_email = (case DEFAULT_FROM_EMAIL (conf ev) of
                      None \<Rightarrow> ''noreply@example.com'' | Some a \<Rightarrow> a),
      recipient_list = [email]\<rparr>"

definition send_email_to_address ::
  "env \<Rightarrow> string \<Rightarrow> string \<Rightarrow> json \<Rightarrow> json \<Rightarrow> world \<Rightarrow> (exn + unit) \<times> world" where
  "send_email_to_address ev email zipc st ct w =
     (let m = build_mail ev email zipc st ct;
          w' = w\<lparr>mail_attempts := mail_attempts w @ [m]\<rparr>
      in case send_mail ev (length (mail_attempts w)) m of
           Some e \<Rightarrow> (Inl e, w')
         | None \<Rightarrow> (Inr (), w'\<lparr>outbox := outbox w' @ [m]\<rparr>))"

subsection \<open>\<^verbatim>\<open>process_row\<close>\<close>

definition failure_record :: "CSVProcessingRecord \<Rightarrow> string \<Rightarrow> string \<Rightarrow> exn \<Rightarrow> EmailRecord" where
  "failure_record r zipc email e =
     \<lparr>processing_record = pk r, email_address = email, zip_code = zipc, state = JNull,
      city = JNull, success = False, error_message = Some (str_exn e)\<rparr>"

definition process_row ::
  "env \<Rightarrow> CSVProcessingRecord \<Rightarrow> string \<Rightarrow> string \<Rightarrow> world \<Rightarrow> bool \<times> world" where
  "process_row ev r zipc email w =
     (case get_location_from_zip ev zipc w of
        (Inl e, w1) \<Rightarrow> (False, create_email_record (failure_record r zipc email e) w1)
      | (Inr (st, ct), w1) \<Rightarrow>
          (case send_email_to_address ev email zipc st ct w1 of
             (Inl e, w2) \<Rightarrow> (False, create_email_record (failure_record r zipc email e) w2)
           | (Inr u, w2) \<Rightarrow>
               (True,
                create_email_record
                  \<lparr>processing_record = pk r, email_address = email, zip_code = zipc,
                   state = st, city = ct, success = True, error_message = None\<rparr> w2)))"

subsection \<open>\<^verbatim>\<open>process_single_csv\<close>\<close>

text \<open>The three counters \<^verbatim>\<open>total_rows\<close>, \<^verbatim>\<open>successful_rows\<close>, \<^verbatim>\<open>failed_rows\<close> of the loop.\<close>

type_synonym counters = "int \<times> int \<times> int"

definition missing_record :: "CSVProcessingRecord \<Rightarrow> string \<Rightarrow> string \<Rightarrow> EmailRecord" where
  "missing_record r zipc email =
     \<lparr>processing_record = pk r,
      email_address = (if email = [] then ''N/A'' else email),
      zip_code = (if zipc = [] then ''N/A'' else zipc),
      state = JNull, city = JNull, success = False,
      error_message = Some ''Missing zip code or email''\<rparr>"

text \<open>One turn of the loop over the rows (lines 100 to 125).\<close>

definition row_step ::
  "env \<Rightarrow> CSVProcessingRecord \<Rightarrow> csv_row \<Rightarrow> counters \<Rightarrow> world \<Rightarrow> (exn + counters) \<times> world" where
  "row_step ev r row c w =
     (case c of (t, s, f) \<Rightarrow>
        (case py_strip (row_get row ''zip'') of
           Inl e \<Rightarrow> (Inl e, w)
         | Inr zipc \<Rightarrow>
             (case py_strip (row_get row ''email'') of
                Inl e \<Rightarrow> (Inl e, w)
              | Inr email \<Rightarrow>
                  if zipc = [] \<or> email = [] then
                    (Inr (t + 1, s, f + 1), create_email_record (missing_record r zipc email) w)
                  else
                    (case process_row ev r zipc email w of
                       (True, w') \<Rightarrow> (Inr (t + 1, s + 1, f), w')
                     | (False, w') \<Rightarrow> (Inr (t + 1, s, f + 1), w')))))"

fun rows_loop ::
  "env \<Rightarrow> CSVProcessingRecord \<Rightarrow> csv_row list \<Rightarrow> counters \<Rightarrow> world \<Rightarrow> (exn + counters) \<times> world"
where
  "rows_loop ev r [] c w = (Inr c, w)"
| "rows_loop ev r (row # rows) c w =
     (case row_step ev r row c w of
        (Inl e, w') \<Rightarrow> (Inl e, w')
      | (Inr c', w') \<Rightarrow> rows_loop ev r rows c' w')"

text \<open>\<^verbatim>\<open>open(csv_file_path, 'r', encoding='utf-8')\<close>.\<close>

definition open_file :: "world \<Rightarrow> string \<Rightarrow> csv_file" where
  "open_file w name =
     (case map_of (incoming w) name of
        None \<Rightarrow> Unreadable (Exn OSError ''No such file or directory'')
      | Some f \<Rightarrow> f)"

text \<open>The \<^verbatim>\<open>with\<close> block (lines 96 to 125): open the file and run the loop to its end.\<close>

definition read_rows ::
  "env \<Rightarrow> CSVProcessingRecord \<Rightarrow> csv_file \<Rightarrow> world \<Rightarrow> (exn + counters) \<times> world" where
  "read_rows ev r file w =
     (case file of
        Unreadable e \<Rightarrow> (Inl e, w)
      | Records recs err \<Rightarrow>
          (case rows_loop ev r (DictReader recs) (0, 0, 0) w of
             (Inl e, w') \<Rightarrow> (Inl e, w')
           | (Inr c, w') \<Rightarrow> (case err of Some e \<Rightarrow> (Inl e, w') | None \<Rightarrow> (Inr c, w'))))"

subsection \<open>\<^verbatim>\<open>move_to_processed\<close>\<close>

definition new_filename :: "string \<Rightarrow> datetime \<Rightarrow> string" where
  "new_filename name dt = stem name @ ''_'' @ strftime dt @ suffix name"

text \<open>
  \<^verbatim>\<open>shutil.move\<close>: when it succeeds the file is gone from the incoming directory and the
  destination name holds its contents, replacing a file of that name.
\<close>

definition move_to_processed :: "env \<Rightarrow> string \<Rightarrow> world \<Rightarrow> (exn + unit) \<times> world" where
  "move_to_processed ev name w =
     (let dest = new_filename name (now ev (clock_reads w));
          w' = w\<lparr>clock_reads := Suc (clock_reads w)\<rparr>
      in case map_of (incoming w) name of
           None \<Rightarrow> (Inl (Exn OSError ''No such file or directory''), w')
         | Some content \<Rightarrow>
             (case shutil_move ev name dest of
                Some e \<Rightarrow> (Inl e, w')
              | None \<Rightarrow>
                  (Inr (),
                   w'\<lparr>incoming := filter (\<lambda>p. fst p \<noteq> name) (incoming w'),
                      processed := (dest, content) # filter (\<lambda>p. fst p \<noteq> dest) (processed w')\<rparr>)))"

text \<open>
  \<^verbatim>\<open>process_single_csv\<close>.  The \<^verbatim>\<open>except Exception\<close> clause covers the whole \<^verbatim>\<open>try\<close>, the move
  included; it changes the status of the object in memory, whose counts are still the
  defaults unless line 128 was reached, and saves it.
\<close>

definition process_single_csv :: "env \<Rightarrow> string \<Rightarrow> world \<Rightarrow> world" where
  "process_single_csv ev name w =
     (case create_csv_record name w of (r, w1) \<Rightarrow>
        (case read_rows ev r (open_file w1 name) w1 of
           (Inl e, w2) \<Rightarrow> save (r\<lparr>status := ''failed''\<rparr>) w2
         | (Inr (t, s, f), w2) \<Rightarrow>
             (let r' = r\<lparr>total_rows := t, successful_rows := s, failed_rows := f,
                         status := ''completed''\<rparr>
              in case move_to_processed ev name (save r' w2) of
                   (Inl e, w4) \<Rightarrow> save (r'\<lparr>status := ''failed''\<rparr>) w4
                 | (Inr u, w4) \<Rightarrow> w4)))"

subsection \<open>\<^verbatim>\<open>process_csv_files\<close>\<close>

text \<open>\<^verbatim>\<open>incoming_dir.glob('*.csv')\<close>, in the order of the directory.\<close>

definition glob_csv :: "world \<Rightarrow> string list" where
  "glob_csv w = filter (\<lambda>n. endswith n ''.csv'') (map fst (incoming w))"

definition process_csv_files :: "env \<Rightarrow> world \<Rightarrow> world" where
  "process_csv_files ev w =
     (let csv_files = glob_csv w
      in if csv_files = [] then w else fold (process_single_csv ev) csv_files w)"

section \<open>Notions used in the statements\<close>

text \<open>The data rows of a file: the rows that \<^verbatim>\<open>DictReader\<close> yields.\<close>

definition data_rows :: "csv_file \<Rightarrow> csv_row list" where
  "data_rows file = (case file of Unreadable e \<Rightarrow> [] | Records recs err \<Rightarrow> DictReader recs)"

text \<open>The trimmed value of a field of a row, where the row has text for it.\<close>

definition trimmed :: "csv_row \<Rightarrow> string \<Rightarrow> string" where
  "trimmed row key = (case row_get row key of VStr s \<Rightarrow> strip s | _ \<Rightarrow> [])"

definition is_text :: "csv_value \<Rightarrow> bool" where
  "is_text v = (case v of VStr s \<Rightarrow> True | _ \<Rightarrow> False)"

text \<open>Both \<^verbatim>\<open>row.get('zip', '')\<close> and \<^verbatim>\<open>row.get('email', '')\<close> are strings.\<close>

definition text_fields :: "csv_row \<Rightarrow> bool" where
  "text_fields row = (is_text (row_get row ''zip'') \<and> is_text (row_get row ''email''))"

text \<open>The row has a non-empty zip and a non-empty email, after trimming.\<close>

definition has_zip_and_email :: "csv_row \<Rightarrow> bool" where
  "has_zip_and_email row =
     (text_fields row \<and> trimmed row ''zip'' \<noteq> [] \<and> trimmed row ''email'' \<noteq> [])"

text \<open>The record stored for a row that lacks its zip or its email.\<close>

definition missing_row_record :: "CSVProcessingRecord \<Rightarrow> csv_row \<Rightarrow> EmailRecord" where
  "missing_row_record r row = missing_record r (trimmed row ''zip'') (trimmed row ''email'')"

text \<open>The processing record with a given key, and the number of email records it owns.\<close>

definition find_record :: "world \<Rightarrow> nat \<Rightarrow> CSVProcessingRecord option" where
  "find_record w k = find (\<lambda>r. pk r = k) (csv_records w)"

definition row_count :: "world \<Rightarrow> nat \<Rightarrow> nat" where
  "row_count w k = length (filter (\<lambda>e. processing_record e = k) (email_records w))"

definition terminal :: "CSVProcessingRecord \<Rightarrow> bool" where
  "terminal r = (status r = ''completed'' \<or> status r = ''failed'')"

text \<open>
  What holds of a processing record in a terminal status: its counts add up, it owns at
  least \<open>total_rows\<close> email records, and exactly that many when it is completed.
\<close>

definition record_ok :: "world \<Rightarrow> CSVProcessingRecord \<Rightarrow> bool" where
  "record_ok w r =
     (total_rows r = successful_rows r + failed_rows r
      \<and> total_rows r \<le> int (row_count w (pk r))
      \<and> (status r = ''completed'' \<longrightarrow> int (row_count w (pk r)) = total_rows r))"

definition foreign_keys_ok :: "world \<Rightarrow> bool" where
  "foreign_keys_ok w =
     (\<forall>e \<in> set (email_records w). \<exists>r \<in> set (csv_records w). pk r = processing_record e)"

definition db_invariant :: "world \<Rightarrow> bool" where
  "db_invariant w =
     (foreign_keys_ok w \<and> (\<forall>r \<in> set (csv_records w). terminal r \<longrightarrow> record_ok w r))"

text \<open>
  The outcome of the \<^verbatim>\<open>with\<close> block of \<^verbatim>\<open>process_single_csv\<close> for a file: the exception
  raised while opening, reading or iterating, or the counters at the end of the loop.
\<close>

definition reading_result :: "env \<Rightarrow> string \<Rightarrow> world \<Rightarrow> (exn + counters) \<times> world" where
  "reading_result ev name w =
     (case create_csv_record name w of (r, w1) \<Rightarrow> read_rows ev r (open_file w1 name) w1)"

text \<open>The name under which \<^verbatim>\<open>move_to_processed\<close> stores a file when called in world \<open>w\<close>.\<close>

definition dest_name :: "env \<Rightarrow> string \<Rightarrow> world \<Rightarrow> string" where
  "dest_name ev name w = new_filename name (now ev (clock_reads w))"

text \<open>
  The object that \<^verbatim>\<open>process_single_csv\<close> creates for a file, and the same object with the
  counters and a status assigned.
\<close>

definition new_record :: "string \<Rightarrow> world \<Rightarrow> CSVProcessingRecord" where
  "new_record name w =
     \<lparr>pk = fresh_pk w, filename = name, total_rows = 0, successful_rows = 0,
      failed_rows = 0, status = ''processing''\<rparr>"

definition counted :: "CSVProcessingRecord \<Rightarrow> counters \<Rightarrow> string \<Rightarrow> CSVProcessingRecord" where
  "counted r c st =
     (case c of (t, s, f) \<Rightarrow>
        r\<lparr>total_rows := t, successful_rows := s, failed_rows := f, status := st\<rparr>)"

text \<open>The world after the loop of \<^verbatim>\<open>process_csv_files\<close> has dealt with the files \<open>names\<close>.\<close>

definition files_done :: "env \<Rightarrow> string list \<Rightarrow> world \<Rightarrow> world" where
  "files_done ev names w = fold (process_single_csv ev) names w"

text \<open>What the command does not touch while it works through the rows of a file.\<close>

definition frame :: "world \<Rightarrow> world \<Rightarrow> bool" where
  "frame w w' =
     (csv_records w' = csv_records w \<and> incoming w' = incoming w
      \<and> processed w' = processed w \<and> clock_reads w' = clock_reads w)"

text \<open>The form of a timestamp: eight digits, an underscore, six digits.\<close>

definition timestamp_form :: "string \<Rightarrow> bool" where
  "timestamp_form ts =
     (length ts = 15 \<and> list_all isdigit (take 8 ts) \<and> ts ! 8 = CHR ''_''
      \<and> list_all isdigit (drop 9 ts))"

section \<open>Example inputs\<close>

definition example_settings :: settings where
  "example_settings =
     \<lparr>ZIP_API_URL = (\<lambda>z. ''https://api.zippopotam.us/us/'' @ z),
      ZIP_API_TIMEOUT = None,
      DEFAULT_FROM_EMAIL = Some ''noreply@example.com''\<rparr>"

text \<open>
  An environment whose service answers every request with \<open>got\<close>, whose mail transport
  answers \<open>sent\<close>, whose clock shows 15 January 2024, 09:30:00, and where moving a file
  answers \<open>moved\<close>.
\<close>

definition example_env :: "(exn + response) \<Rightarrow> exn option \<Rightarrow> exn option \<Rightarrow> env" where
  "example_env got sent moved =
     \<lparr>conf = example_settings,
      requests_get = (\<lambda>i u t. got),
      send_mail = (\<lambda>i m. sent),
      now = (\<lambda>i. \<lparr>year = 2024, month = 1, day = 15, hour = 9, minute = 30, second = 0\<rparr>),
      shutil_move = (\<lambda>s d. moved),
      py_str = (\<lambda>v. case v of JNull \<Rightarrow> ''None'' | _ \<Rightarrow> [])\<rparr>"

text \<open>Empty tables, an empty processed directory and the given incoming files.\<close>

definition example_world :: "(string \<times> csv_file) list \<Rightarrow> world" where
  "example_world files =
     \<lparr>incoming = files, processed = [], csv_records = [], email_records = [],
      api_calls = [], mail_attempts = [], outbox = [], clock_reads = 0\<rparr>"

definition example_response :: "nat \<Rightarrow> string \<Rightarrow> json \<Rightarrow> exn + response" where
  "example_response code phrase data =
     Inr \<lparr>status_code = code, reason = phrase,
          url = ''https://api.zippopotam.us/us/90210'', json_result = Inr data\<rparr>"

definition example_record :: CSVProcessingRecord where
  "example_record =
     \<lparr>pk = 1, filename = ''input.csv'', total_rows = 0, successful_rows = 0,
      failed_rows = 0, status = ''processing''\<rparr>"

text \<open>The body \<^verbatim>\<open>{"places": [{"state": "California", "place name": "Beverly Hills"}]}\<close>.\<close>

definition beverly_hills :: json where
  "beverly_hills =
     JObj [(''places'',
            JArr [JObj [(''state'', JStr ''California''),
                        (''place name'', JStr ''Beverly Hills'')]])]"

text \<open>The body \<^verbatim>\<open>{"places": [{"state": null, "place name": "Beverly Hills"}]}\<close>.\<close>

definition null_state :: json where
  "null_state =
     JObj [(''places'',
            JArr [JObj [(''state'', JNull), (''place name'', JStr ''Beverly Hills'')]])]"

text \<open>
  A file with the header \<^verbatim>\<open>zip,email\<close> and the rows of the scenario:
  \<^verbatim>\<open>90210,a@x.com\<close>, \<^verbatim>\<open>,b@x.com\<close> and \<^verbatim>\<open>10001,\<close>.
\<close>

definition scenario_file :: csv_file where
  "scenario_file =
     Records [[''zip'', ''email''], [''90210'', ''a@x.com''], [[], ''b@x.com''],
              [''10001'', []]] None"

text \<open>A file whose second data row makes the reader raise \<^verbatim>\<open>csv.Error\<close>.\<close>

definition broken_file :: csv_file where
  "broken_file =
     Records [[''zip'', ''email''], [[], ''b@x.com'']]
       (Some (Exn OtherError ''line contains NUL''))"

text \<open>A file without a \<^verbatim>\<open>zip\<close> column whose second data row makes the reader raise.\<close>

definition no_zip_broken_file :: csv_file where
  "no_zip_broken_file =
     Records [[''email''], [''a@x.com'']] (Some (Exn OtherError ''line contains NUL''))"

text \<open>A file without a \<^verbatim>\<open>zip\<close> column.\<close>

definition no_zip_file :: csv_file where
  "no_zip_file = Records [[''email''], [''a@x.com''], ['' '']] None"

text \<open>A file with the header \<^verbatim>\<open>name,email\<close> and the short row \<^verbatim>\<open>bob\<close>.\<close>

definition short_row_file :: csv_file where
  "short_row_file = Records [[''name'', ''email''], [''bob'']] None"

text \<open>
  The scenario: a service that always answers with Beverly Hills, a transport that
  accepts every message, and \<^verbatim>\<open>input.csv\<close> as the only incoming file.
\<close>

definition scenario_env :: env where
  "scenario_env = example_env (example_response 200 ''OK'' beverly_hills) None None"

definition scenario_world :: world where
  "scenario_world = example_world [(''input.csv'', scenario_file)]"

text \<open>The row \<^verbatim>\<open>,b@x.com\<close> under the header \<^verbatim>\<open>zip,email\<close>.\<close>

definition no_zip_row :: csv_row where
  "no_zip_row = make_row [''zip'', ''email''] [[], ''b@x.com'']"

text \<open>Two incoming files: \<^verbatim>\<open>a.csv\<close>, which cannot be read to its end, and \<^verbatim>\<open>b.csv\<close>.\<close>

definition two_files_world :: world where
  "two_files_world = example_world [(''a.csv'', broken_file), (''b.csv'', scenario_file)]"

section \<open>Properties of the lookup and of \<^verbatim>\<open>process_row\<close>\<close>

lemma extract_location_absent:
  "map_of kvs ''places'' = None \<Longrightarrow>
   extract_location (JObj kvs) = Inr (JStr ''Unknown'', JStr ''Unknown'')"
  by (simp add: extract_location_def)

lemma extract_location_empty:
  "map_of kvs ''places'' = Some v \<Longrightarrow> v = JArr [] \<or> v = JStr [] \<or> v = JObj [] \<Longrightarrow>
   extract_location (JObj kvs) = Inr (JStr ''Unknown'', JStr ''Unknown'')"
  by (auto simp add: extract_location_def)

lemma raise_for_status_below_400: "status_code resp < 400 \<Longrightarrow> raise_for_status resp = None"
  by (simp add: raise_for_status_def)

text \<open>
  An object without \<^verbatim>\<open>places\<close>, or whose \<^verbatim>\<open>places\<close> is an empty list, string or object, gives
  the placeholders, for every status that \<^verbatim>\<open>raise_for_status\<close> lets through.
\<close>

lemma lookup_no_places:
  assumes "api_call ev zc w = Inr resp"
    and "status_code resp < 400"
    and "json_result resp = Inr (JObj kvs)"
    and "map_of kvs ''places'' = None
         \<or> map_of kvs ''places'' = Some (JArr [])
         \<or> map_of kvs ''places'' = Some (JStr [])
         \<or> map_of kvs ''places'' = Some (JObj [])"
  shows "fst (get_location_from_zip ev zc w) = Inr (JStr ''Unknown'', JStr ''Unknown'')"
  using assms
  by (auto simp add: get_location_from_zip_def fetch_location_def raise_for_status_below_400
      extract_location_absent extract_location_empty)

text \<open>
  C4.  A response with status 200 whose body is the valid JSON document
  \<^verbatim>\<open>{"places": null}\<close> holds no place entry, yet the lookup does not return the
  placeholders \<^verbatim>\<open>('Unknown', 'Unknown')\<close>: \<^verbatim>\<open>len(None)\<close> raises a \<^verbatim>\<open>TypeError\<close>, which the
  \<^verbatim>\<open>except requests.RequestException\<close> clause lets through.
\<close>

theorem lookup_places_null_raises:
  "fst (get_location_from_zip
          (example_env (example_response 200 ''OK'' (JObj [(''places'', JNull)])) None None)
          ''90210'' (example_world []))
   = Inl (Exn TypeError ''object of type 'NoneType' has no len()'')"
  by (simp add: get_location_from_zip_def api_call_def example_env_def example_response_def
      fetch_location_def raise_for_status_def extract_location_def)

text \<open>
  C5, as stated, fails: \<^verbatim>\<open>raise_for_status\<close> does not raise for the non-2xx status 304.
  With a body that names a place the lookup returns state and city, and no failure is
  raised at all; with the body \<^verbatim>\<open>null\<close> the lookup fails with a \<^verbatim>\<open>TypeError\<close> whose message
  is not of the form \<^verbatim>\<open>API error for ZIP ...\<close>.
\<close>

theorem lookup_status_304_not_normalized:
  "fst (get_location_from_zip
          (example_env (example_response 304 ''Not Modified'' beverly_hills) None None)
          ''90210'' (example_world []))
   = Inr (JStr ''California'', JStr ''Beverly Hills'')
   \<and> fst (get_location_from_zip
            (example_env (example_response 304 ''Not Modified'' JNull) None None)
            ''90210'' (example_world []))
     = Inl (Exn TypeError ''argument of type 'NoneType' is not iterable'')"
  by (simp add: get_location_from_zip_def api_call_def example_env_def example_response_def
      fetch_location_def raise_for_status_def extract_location_def beverly_hills_def)

text \<open>
  C5, amended.  When \<^verbatim>\<open>requests.get\<close> raises a \<^verbatim>\<open>requests.RequestException\<close> with message
  \<open>msg\<close>, the lookup raises one \<^verbatim>\<open>Exception\<close> with message
  \<^verbatim>\<open>API error for ZIP <code>: <msg>\<close>; when the response has a status from 400 to 599,
  the lookup raises one \<^verbatim>\<open>Exception\<close> with message \<^verbatim>\<open>API error for ZIP <code>: <detail>\<close>,
  \<open>detail\<close> being the message of the \<^verbatim>\<open>HTTPError\<close> of \<^verbatim>\<open>raise_for_status\<close>.
\<close>

theorem lookup_failure_normalized:
  "(api_call ev zc w = Inl (Exn RequestException msg) \<longrightarrow>
      fst (get_location_from_zip ev zc w)
        = Inl (Exn PlainException (''API error for ZIP '' @ zc @ '': '' @ msg)))
   \<and> (api_call ev zc w = Inr resp \<and> 400 \<le> status_code resp \<and> status_code resp < 600 \<longrightarrow>
        (\<exists>detail. raise_for_status resp = Some (Exn RequestException detail)
           \<and> fst (get_location_from_zip ev zc w)
               = Inl (Exn PlainException (''API error for ZIP '' @ zc @ '': '' @ detail))))"
  by (auto simp add: get_location_from_zip_def fetch_location_def raise_for_status_def)

theorem lookup_failure_normalized_witness:
  "api_call (example_env (example_response 404 ''Not Found'' (JObj [])) None None)
     ''90210'' (example_world [])
     = example_response 404 ''Not Found'' (JObj [])
   \<and> fst (get_location_from_zip
            (example_env (example_response 404 ''Not Found'' (JObj [])) None None)
            ''90210'' (example_world []))
     = Inl (Exn PlainException
             (''API error for ZIP 90210: 404 Client Error: Not Found for url: ''
                @ ''https://api.zippopotam.us/us/90210''))"
  using lookup_failure_normalized
          [of "example_env (example_response 404 ''Not Found'' (JObj [])) None None"
              "''90210''" "example_world []" "[]"
              "\<lparr>status_code = 404, reason = ''Not Found'',
                url = ''https://api.zippopotam.us/us/90210'', json_result = Inr (JObj [])\<rparr>"]
  by (simp add: api_call_def example_env_def example_response_def raise_for_status_def
      digit_char_def)

lemma get_location_world:
  "snd (get_location_from_zip ev zc w)
   = w\<lparr>api_calls := api_calls w @ [(ZIP_API_URL (conf ev) zc, zip_api_timeout ev)]\<rparr>"
  by (simp add: get_location_from_zip_def)

lemma normalize_failure_cases:
  "normalize_failure zc (Inl c :: exn + 'a) = Inl e \<Longrightarrow> \<exists>pre. str_exn e = pre @ str_exn c"
  by (cases c; cases "class_of c") auto

text \<open>
  When the lookup returns and the transport accepts the message, the row gives one
  message, handed over once, and one record with \<open>success\<close> set and the values returned.
\<close>

lemma process_row_success:
  assumes "fst (get_location_from_zip ev zc w) = Inr (st, ct)"
    and "send_mail ev (length (mail_attempts w)) (build_mail ev email zc st ct) = None"
  shows "\<exists>w'. process_row ev r zc email w = (True, w')
           \<and> outbox w' = outbox w @ [build_mail ev email zc st ct]
           \<and> mail_attempts w' = mail_attempts w @ [build_mail ev email zc st ct]
           \<and> email_records w'
               = email_records w
                 @ [\<lparr>processing_record = pk r, email_address = email, zip_code = zc,
                      state = st, city = ct, success = True, error_message = None\<rparr>]"
  using assms
  by (simp add: process_row_def get_location_from_zip_def send_email_to_address_def
      create_email_record_def Let_def)

text \<open>
  C7.  For the row \<^verbatim>\<open>90210, a@x.com\<close>, a service that answers
  \<^verbatim>\<open>{"places": [{"state": null, "place name": "Beverly Hills"}]}\<close> with status 200 and a
  transport that accepts the message, \<^verbatim>\<open>process_row\<close> returns \<^verbatim>\<open>True\<close>, one message is
  sent and one record with \<open>success\<close> set is stored, but its \<open>state\<close> is null.
\<close>

theorem process_row_null_state:
  "process_row (example_env (example_response 200 ''OK'' null_state) None None)
     example_record ''90210'' ''a@x.com'' (example_world [])
   = (True,
      (example_world [])
        \<lparr>email_records :=
           [\<lparr>processing_record = 1, email_address = ''a@x.com'', zip_code = ''90210'',
             state = JNull, city = JStr ''Beverly Hills'', success = True,
             error_message = None\<rparr>],
         api_calls := [(''https://api.zippopotam.us/us/90210'', 5)],
         mail_attempts :=
           [build_mail (example_env (example_response 200 ''OK'' null_state) None None)
              ''a@x.com'' ''90210'' JNull (JStr ''Beverly Hills'')],
         outbox :=
           [build_mail (example_env (example_response 200 ''OK'' null_state) None None)
              ''a@x.com'' ''90210'' JNull (JStr ''Beverly Hills'')]\<rparr>)"
  by (simp add: process_row_def get_location_from_zip_def api_call_def zip_api_timeout_def
      example_env_def example_settings_def example_response_def null_state_def
      example_record_def fetch_location_def raise_for_status_def extract_location_def
      example_world_def send_email_to_address_def create_email_record_def Let_def)

text \<open>
  C8.  For a row with non-empty zip and email whose lookup fails (the \<^verbatim>\<open>try\<close> of the
  lookup raises \<open>cause\<close>): the lookup raises some \<open>e\<close> whose message ends with the message
  of \<open>cause\<close>; \<^verbatim>\<open>process_row\<close> returns \<^verbatim>\<open>False\<close>, having stored one record with \<open>success\<close>
  unset and \<^verbatim>\<open>str(e)\<close> as its error message; no message was handed to the transport.
  \<^verbatim>\<open>process_row\<close> has a value for every input: nothing is raised to the caller.
\<close>

theorem process_row_lookup_failure:
  assumes "zc \<noteq> []" and "email \<noteq> []"
    and "fetch_location (api_call ev zc w) = Inl cause"
  shows "\<exists>e pre w'.
           fst (get_location_from_zip ev zc w) = Inl e
         \<and> str_exn e = pre @ str_exn cause
         \<and> process_row ev r zc email w = (False, w')
         \<and> email_records w'
             = email_records w
               @ [\<lparr>processing_record = pk r, email_address = email, zip_code = zc,
                    state = JNull, city = JNull, success = False,
                    error_message = Some (str_exn e)\<rparr>]
         \<and> mail_attempts w' = mail_attempts w
         \<and> outbox w' = outbox w"
proof -
  obtain e where e: "normalize_failure zc (Inl cause :: exn + json \<times> json) = Inl e"
    by (cases cause; cases "class_of cause") auto
  then obtain pre where pre: "str_exn e = pre @ str_exn cause"
    using normalize_failure_cases by blast
  have "get_location_from_zip ev zc w
        = (Inl e, w\<lparr>api_calls := api_calls w @ [(ZIP_API_URL (conf ev) zc, zip_api_timeout ev)]\<rparr>)"
    using assms(3) e by (simp add: get_location_from_zip_def)
  then show ?thesis
    using pre
    by (simp add: process_row_def create_email_record_def failure_record_def)
qed

theorem process_row_lookup_failure_witness:
  "fetch_location
     (api_call (example_env (Inl (Exn RequestException ''timed out'')) None None)
        ''90210'' (example_world []))
     = Inl (Exn RequestException ''timed out'')
   \<and> process_row (example_env (Inl (Exn RequestException ''timed out'')) None None)
       example_record ''90210'' ''a@x.com'' (example_world [])
     = (False,
        (example_world [])
          \<lparr>email_records :=
             [\<lparr>processing_record = 1, email_address = ''a@x.com'', zip_code = ''90210'',
               state = JNull, city = JNull, success = False,
               error_message = Some ''API error for ZIP 90210: timed out''\<rparr>],
           api_calls := [(''https://api.zippopotam.us/us/90210'', 5)]\<rparr>)"
  using process_row_lookup_failure
          [of "''90210''" "''a@x.com''"
              "example_env (Inl (Exn RequestException ''timed out'')) None None"
              "example_world []" "Exn RequestException ''timed out''" example_record]
  by (simp add: process_row_def get_location_from_zip_def api_call_def zip_api_timeout_def
      example_env_def example_settings_def example_record_def fetch_location_def
      example_world_def create_email_record_def failure_record_def)

section \<open>Properties of \<^verbatim>\<open>process_single_csv\<close>\<close>

lemma fold_max_le: "(a::nat) \<le> fold max xs a"
  by (induction xs arbitrary: a) (auto intro: order_trans[OF max.cobounded2])

lemma fold_max_mem: "x \<in> set xs \<Longrightarrow> (x::nat) \<le> fold max xs a"
proof (induction xs arbitrary: a)
  case Nil then show ?case by simp
next
  case (Cons y ys)
  show ?case
  proof (cases "x = y")
    case True
    have "y \<le> max y a" by simp
    also have "\<dots> \<le> fold max ys (max y a)" by (rule fold_max_le)
    finally show ?thesis using True by simp
  next
    case False
    with Cons show ?thesis by simp
  qed
qed

lemma fresh_pk_gt: "r \<in> set (csv_records w) \<Longrightarrow> pk r < fresh_pk w"
  unfolding fresh_pk_def using fold_max_mem[of "pk r" "map pk (csv_records w)" 0]
  by (simp add: less_Suc_eq_le)

lemma process_row_frame: "frame w (snd (process_row ev r zc email w))"
  by (simp add: frame_def process_row_def get_location_from_zip_def send_email_to_address_def
      create_email_record_def Let_def split: sum.splits prod.splits option.splits)

lemma process_row_records:
  "\<exists>e. email_records (snd (process_row ev r zc email w)) = email_records w @ [e]
       \<and> processing_record e = pk r \<and> success e = fst (process_row ev r zc email w)"
  by (simp add: process_row_def get_location_from_zip_def send_email_to_address_def
      create_email_record_def failure_record_def Let_def split: sum.splits prod.splits option.splits)

lemma row_step_Inl: "row_step ev r row c w = (Inl e, w') \<Longrightarrow> w' = w"
  by (auto simp add: row_step_def split: prod.splits sum.splits if_splits bool.splits)

lemma row_step_Inr:
  assumes "row_step ev r row (t, s, f) w = (Inr (t', s', f'), w')"
  shows "frame w w'
       \<and> (\<exists>e. email_records w' = email_records w @ [e] \<and> processing_record e = pk r)
       \<and> t' = t + 1 \<and> s' + f' = s + f + 1 \<and> s \<le> s' \<and> f \<le> f'
       \<and> s' \<le> s + (if has_zip_and_email row then 1 else 0)"
proof -
  obtain zc where zc: "py_strip (row_get row ''zip'') = Inr zc"
    using assms by (auto simp add: row_step_def split: sum.splits)
  obtain em where em: "py_strip (row_get row ''email'') = Inr em"
    using assms zc by (auto simp add: row_step_def split: sum.splits)
  have tz: "is_text (row_get row ''zip'') \<and> trimmed row ''zip'' = zc"
    using zc by (cases "row_get row ''zip''") (auto simp add: is_text_def trimmed_def)
  have te: "is_text (row_get row ''email'') \<and> trimmed row ''email'' = em"
    using em by (cases "row_get row ''email''") (auto simp add: is_text_def trimmed_def)
  show ?thesis
  proof (cases "zc = [] \<or> em = []")
    case True
    then show ?thesis using assms zc em tz te
      by (auto simp add: row_step_def frame_def create_email_record_def missing_record_def)
  next
    case False
    then have h: "has_zip_and_email row"
      using tz te by (simp add: has_zip_and_email_def text_fields_def)
    obtain b w2 where pr: "process_row ev r zc em w = (b, w2)" by (cases "process_row ev r zc em w")
    have fr: "frame w w2" using process_row_frame[of w ev r zc em] pr by simp
    have rc: "\<exists>e. email_records w2 = email_records w @ [e] \<and> processing_record e = pk r"
      using process_row_records[of ev r zc em w] pr by auto
    show ?thesis using assms zc em False pr fr rc h
      by (cases b) (auto simp add: row_step_def)
  qed
qed

lemma rows_loop_effect:
  "rows_loop ev r rows (t, s, f) w = (res, w') \<Longrightarrow>
     frame w w'
     \<and> (\<exists>new. email_records w' = email_records w @ new
            \<and> (\<forall>e \<in> set new. processing_record e = pk r)
            \<and> (case res of
                  Inl e \<Rightarrow> length new \<le> length rows
                | Inr (t', s', f') \<Rightarrow>
                    length new = length rows
                    \<and> t' = t + int (length rows)
                    \<and> s' + f' = s + f + int (length rows)
                    \<and> s \<le> s'
                    \<and> s' \<le> s + int (length (filter has_zip_and_email rows))))"
proof (induction rows arbitrary: t s f w)
  case Nil
  then show ?case by (auto simp add: frame_def)
next
  case (Cons row rows)
  obtain res1 w1 where st: "row_step ev r row (t, s, f) w = (res1, w1)"
    by (cases "row_step ev r row (t, s, f) w")
  show ?case
  proof (cases res1)
    case (Inl e)
    then have "w1 = w" using st row_step_Inl by blast
    then show ?thesis using Cons.prems st Inl by (auto simp add: frame_def)
  next
    case (Inr c1)
    obtain t1 s1 f1 where c1: "c1 = (t1, s1, f1)" by (cases c1)
    have loop: "rows_loop ev r rows (t1, s1, f1) w1 = (res, w')"
      using Cons.prems st Inr c1 by simp
    note step = row_step_Inr[OF st[unfolded Inr c1]]
    note ih = Cons.IH[OF loop]
    from step obtain e1 where e1: "email_records w1 = email_records w @ [e1]" "processing_record e1 = pk r"
      by blast
    from ih obtain new where new: "email_records w' = email_records w1 @ new"
      "\<forall>e \<in> set new. processing_record e = pk r"
      "(case res of
                  Inl e \<Rightarrow> length new \<le> length rows
                | Inr (t', s', f') \<Rightarrow>
                    length new = length rows
                    \<and> t' = t1 + int (length rows)
                    \<and> s' + f' = s1 + f1 + int (length rows)
                    \<and> s1 \<le> s'
                    \<and> s' \<le> s1 + int (length (filter has_zip_and_email rows)))"
      by blast
    have fr: "frame w w'" using step ih by (simp add: frame_def)
    have "email_records w' = email_records w @ (e1 # new)" using e1 new by simp
    moreover have "\<forall>e \<in> set (e1 # new). processing_record e = pk r" using e1 new by simp
    moreover have "(case res of
                  Inl e \<Rightarrow> length (e1 # new) \<le> length (row # rows)
                | Inr (t', s', f') \<Rightarrow>
                    length (e1 # new) = length (row # rows)
                    \<and> t' = t + int (length (row # rows))
                    \<and> s' + f' = s + f + int (length (row # rows))
                    \<and> s \<le> s'
                    \<and> s' \<le> s + int (length (filter has_zip_and_email (row # rows))))"
      using new(3) step by (cases res) (auto split: prod.splits)
    ultimately show ?thesis using fr by blast
  qed
qed


lemma read_rows_effect:
  assumes "read_rows ev r file w = (res, w')"
  shows "frame w w'
     \<and> (\<exists>new. email_records w' = email_records w @ new
            \<and> (\<forall>e \<in> set new. processing_record e = pk r)
            \<and> length new \<le> length (data_rows file)
            \<and> (case res of
                  Inl e \<Rightarrow> True
                | Inr (t, s, f) \<Rightarrow>
                    (\<exists>recs. file = Records recs None)
                    \<and> length new = length (data_rows file)
                    \<and> t = int (length (data_rows file))
                    \<and> s + f = int (length (data_rows file))
                    \<and> 0 \<le> s
                    \<and> s \<le> int (length (filter has_zip_and_email (data_rows file)))))"
proof (cases "file")
  case (Unreadable e)
  then show ?thesis using assms by (auto simp add: read_rows_def frame_def)
next
  case (Records recs err)
  obtain res1 w1 where loop: "rows_loop ev r (DictReader recs) (0, 0, 0) w = (res1, w1)"
    by (cases "rows_loop ev r (DictReader recs) (0, 0, 0) w")
  note eff = rows_loop_effect[OF loop]
  have w1: "w1 = w'" using assms Records loop
    by (auto simp add: read_rows_def split: sum.splits option.splits)
  from eff obtain new where new: "email_records w1 = email_records w @ new"
      "\<forall>e \<in> set new. processing_record e = pk r"
      "(case res1 of
                  Inl e \<Rightarrow> length new \<le> length (DictReader recs)
                | Inr (t', s', f') \<Rightarrow>
                    length new = length (DictReader recs)
                    \<and> t' = 0 + int (length (DictReader recs))
                    \<and> s' + f' = 0 + 0 + int (length (DictReader recs))
                    \<and> 0 \<le> s'
                    \<and> s' \<le> 0 + int (length (filter has_zip_and_email (DictReader recs))))"
    by blast
  have len: "length new \<le> length (data_rows file)"
    using new(3) Records by (cases res1) (auto simp add: data_rows_def split: prod.splits)
  have fin: "(case res of
                  Inl e \<Rightarrow> True
                | Inr (t, s, f) \<Rightarrow>
                    (\<exists>recs. file = Records recs None)
                    \<and> length new = length (data_rows file)
                    \<and> t = int (length (data_rows file))
                    \<and> s + f = int (length (data_rows file))
                    \<and> 0 \<le> s
                    \<and> s \<le> int (length (filter has_zip_and_email (data_rows file))))"
  proof (cases res)
    case (Inl e)
    then show ?thesis by simp
  next
    case (Inr c)
    then have "res1 = Inr c \<and> err = None" using assms Records loop
      by (auto simp add: read_rows_def split: sum.splits option.splits)
    then show ?thesis using new(3) Records Inr
      by (auto simp add: data_rows_def split: prod.splits)
  qed
  show ?thesis using eff new(1,2) len fin w1 by blast
qed

lemma map_save_last:
  assumes "\<forall>x \<in> set old. pk x \<noteq> pk r"
  shows "map (\<lambda>x. if pk x = pk r then r' else x) (old @ [r]) = old @ [r']"
proof -
  have "map (\<lambda>x. if pk x = pk r then r' else x) old = old"
    using assms by (induction old) auto
  then show ?thesis by simp
qed

lemma find_record_last:
  assumes "csv_records w = old @ [r]" and "\<forall>x \<in> set old. pk x \<noteq> pk r"
  shows "find_record w (pk r) = Some r"
proof -
  have "find (\<lambda>x. pk x = pk r) (old @ [r]) = Some r"
    using assms(2) by (induction old) auto
  then show ?thesis using assms(1) by (simp add: find_record_def)
qed

lemma old_keys_differ: "\<forall>x \<in> set (csv_records w). pk x \<noteq> fresh_pk w"
  using fresh_pk_gt by fastforce

lemma reading_result_effect:
  assumes "reading_result ev name w = (res, w2)"
  shows "csv_records w2 = csv_records w @ [new_record name w]
     \<and> incoming w2 = incoming w \<and> processed w2 = processed w \<and> clock_reads w2 = clock_reads w
     \<and> (\<exists>new. email_records w2 = email_records w @ new
            \<and> (\<forall>e \<in> set new. processing_record e = fresh_pk w)
            \<and> length new \<le> length (data_rows (open_file w name))
            \<and> (case res of
                  Inl e \<Rightarrow> True
                | Inr (t, s, f) \<Rightarrow>
                    (\<exists>recs. open_file w name = Records recs None)
                    \<and> length new = length (data_rows (open_file w name))
                    \<and> t = int (length (data_rows (open_file w name)))
                    \<and> s + f = int (length (data_rows (open_file w name)))
                    \<and> 0 \<le> s
                    \<and> s \<le> int (length (filter has_zip_and_email (data_rows (open_file w name))))))"
proof -
  let ?w1 = "w\<lparr>csv_records := csv_records w @ [new_record name w]\<rparr>"
  have of1: "open_file ?w1 name = open_file w name" by (simp add: open_file_def)
  have rr: "read_rows ev (new_record name w) (open_file w name) ?w1 = (res, w2)"
    using assms of1 by (simp add: reading_result_def create_csv_record_def new_record_def Let_def)
  from read_rows_effect[OF rr] show ?thesis
    by (simp add: frame_def new_record_def)
qed

lemma process_single_csv_read_failure:
  assumes "reading_result ev name w = (Inl e, w2)"
  shows "process_single_csv ev name w
         = w2\<lparr>csv_records := csv_records w @ [(new_record name w)\<lparr>status := ''failed''\<rparr>]\<rparr>"
proof -
  have cr: "csv_records w2 = csv_records w @ [new_record name w]"
    using reading_result_effect[OF assms] by simp
  have "process_single_csv ev name w = save ((new_record name w)\<lparr>status := ''failed''\<rparr>) w2"
    using assms
    by (simp add: process_single_csv_def reading_result_def create_csv_record_def new_record_def
        Let_def)
  also have "\<dots> = w2\<lparr>csv_records := csv_records w @ [(new_record name w)\<lparr>status := ''failed''\<rparr>]\<rparr>"
    using map_save_last[of "csv_records w" "new_record name w"] old_keys_differ[of w] cr
    by (simp add: save_def new_record_def)
  finally show ?thesis .
qed

lemma process_single_csv_read_success:
  assumes "reading_result ev name w = (Inr c, w2)"
  shows "\<exists>content. map_of (incoming w) name = Some content \<and>
         process_single_csv ev name w
         = (case shutil_move ev name (dest_name ev name w) of
              Some e \<Rightarrow>
                w2\<lparr>csv_records := csv_records w @ [counted (new_record name w) c ''failed''],
                   clock_reads := Suc (clock_reads w)\<rparr>
            | None \<Rightarrow>
                w2\<lparr>csv_records := csv_records w @ [counted (new_record name w) c ''completed''],
                   clock_reads := Suc (clock_reads w),
                   incoming := filter (\<lambda>p. fst p \<noteq> name) (incoming w),
                   processed := (dest_name ev name w, content)
                                # filter (\<lambda>p. fst p \<noteq> dest_name ev name w) (processed w)\<rparr>)"
proof -
  obtain t s f where c: "c = (t, s, f)" by (cases c)
  note eff = reading_result_effect[OF assms]
  have cr: "csv_records w2 = csv_records w @ [new_record name w]"
    and inc: "incoming w2 = incoming w" and prc: "processed w2 = processed w"
    and clk: "clock_reads w2 = clock_reads w"
    using eff by simp_all
  from eff c obtain recs where "open_file w name = Records recs None" by auto
  then obtain content where content: "map_of (incoming w) name = Some content"
    by (auto simp add: open_file_def split: option.splits)
  let ?r' = "counted (new_record name w) c ''completed''"
  have sv: "\<And>r'. pk r' = fresh_pk w \<Longrightarrow> csv_records w3 = csv_records w @ [x] \<Longrightarrow> pk x = fresh_pk w \<Longrightarrow>
            save r' w3 = w3\<lparr>csv_records := csv_records w @ [r']\<rparr>" for w3 x
    using map_save_last[of "csv_records w" x] old_keys_differ[of w]
    by (simp add: save_def)
  have s1: "save ?r' w2 = w2\<lparr>csv_records := csv_records w @ [?r']\<rparr>"
    using sv[of ?r' w2 "new_record name w"] cr c by (simp add: counted_def new_record_def)
  have ps: "process_single_csv ev name w
        = (case move_to_processed ev name (save ?r' w2) of
             (Inl e, w4) \<Rightarrow> save (?r'\<lparr>status := ''failed''\<rparr>) w4
           | (Inr u, w4) \<Rightarrow> w4)"
    using assms
    unfolding c process_single_csv_def reading_result_def create_csv_record_def new_record_def
      counted_def Let_def
    by (simp split: prod.splits sum.splits)
  show ?thesis
  proof (cases "shutil_move ev name (dest_name ev name w)")
    case None
    then show ?thesis using content ps s1 inc prc clk
      by (simp add: move_to_processed_def dest_name_def Let_def)
  next
    case (Some e)
    have "counted (new_record name w) c ''completed''\<lparr>status := ''failed''\<rparr>
          = counted (new_record name w) c ''failed''"
      using c by (simp add: counted_def)
    then show ?thesis using Some content ps s1 inc prc clk
        sv[of "counted (new_record name w) c ''failed''" _ ?r']
      by (simp add: move_to_processed_def dest_name_def Let_def counted_def new_record_def c)
  qed
qed

lemma process_single_csv_summary:
  fixes ev name w
  defines "w' \<equiv> process_single_csv ev name w"
    and "rows \<equiv> data_rows (open_file w name)"
  shows "\<exists>r new.
           csv_records w' = csv_records w @ [r] \<and> pk r = fresh_pk w \<and> filename r = name
         \<and> email_records w' = email_records w @ new
         \<and> (\<forall>e \<in> set new. processing_record e = fresh_pk w)
         \<and> ((\<exists>e w2. reading_result ev name w = (Inl e, w2))
              \<and> r = (new_record name w)\<lparr>status := ''failed''\<rparr>
              \<and> incoming w' = incoming w \<and> processed w' = processed w
              \<and> length new \<le> length rows
            \<or> (\<exists>c w2. reading_result ev name w = (Inr c, w2))
              \<and> total_rows r = int (length rows)
              \<and> successful_rows r + failed_rows r = int (length rows)
              \<and> 0 \<le> successful_rows r
              \<and> successful_rows r \<le> int (length (filter has_zip_and_email rows))
              \<and> length new = length rows
              \<and> ((\<exists>e. shutil_move ev name (dest_name ev name w) = Some e)
                    \<and> status r = ''failed''
                    \<and> incoming w' = incoming w \<and> processed w' = processed w
                  \<or> shutil_move ev name (dest_name ev name w) = None
                    \<and> status r = ''completed''
                    \<and> incoming w' = filter (\<lambda>p. fst p \<noteq> name) (incoming w)
                    \<and> (\<exists>content. map_of (incoming w) name = Some content
                          \<and> processed w'
                              = (dest_name ev name w, content)
                                # filter (\<lambda>p. fst p \<noteq> dest_name ev name w) (processed w))))"
proof -
  obtain res w2 where rr: "reading_result ev name w = (res, w2)"
    by (cases "reading_result ev name w")
  note eff = reading_result_effect[OF rr]
  from eff obtain new where new: "email_records w2 = email_records w @ new"
      "\<forall>e \<in> set new. processing_record e = fresh_pk w"
      "length new \<le> length rows"
      "(case res of
                  Inl e \<Rightarrow> True
                | Inr (t, s, f) \<Rightarrow>
                    (\<exists>recs. open_file w name = Records recs None)
                    \<and> length new = length rows
                    \<and> t = int (length rows)
                    \<and> s + f = int (length rows)
                    \<and> 0 \<le> s
                    \<and> s \<le> int (length (filter has_zip_and_email rows)))"
    unfolding rows_def by blast
  have inc: "incoming w2 = incoming w" and prc: "processed w2 = processed w"
    using eff by simp_all
  show ?thesis
  proof (cases res)
    case (Inl e)
    have "w' = w2\<lparr>csv_records := csv_records w @ [(new_record name w)\<lparr>status := ''failed''\<rparr>]\<rparr>"
      unfolding w'_def using process_single_csv_read_failure rr Inl by blast
    then show ?thesis using new(1,2,3) inc prc rr Inl
      by (auto simp add: new_record_def)
  next
    case (Inr c)
    obtain t s f where c: "c = (t, s, f)" by (cases c)
    have cnt: "length new = length rows" "t = int (length rows)" "s + f = int (length rows)"
      "0 \<le> s" "s \<le> int (length (filter has_zip_and_email rows))"
      using new(4) Inr c by simp_all
    from process_single_csv_read_success[OF rr[unfolded Inr]]
    obtain content where content: "map_of (incoming w) name = Some content"
      and ps: "w' = (case shutil_move ev name (dest_name ev name w) of
              Some e \<Rightarrow>
                w2\<lparr>csv_records := csv_records w @ [counted (new_record name w) c ''failed''],
                   clock_reads := Suc (clock_reads w)\<rparr>
            | None \<Rightarrow>
                w2\<lparr>csv_records := csv_records w @ [counted (new_record name w) c ''completed''],
                   clock_reads := Suc (clock_reads w),
                   incoming := filter (\<lambda>p. fst p \<noteq> name) (incoming w),
                   processed := (dest_name ev name w, content)
                                # filter (\<lambda>p. fst p \<noteq> dest_name ev name w) (processed w)\<rparr>)"
      unfolding w'_def by blast
    show ?thesis
    proof (cases "shutil_move ev name (dest_name ev name w)")
      case None
      then have "w' = w2\<lparr>csv_records := csv_records w @ [counted (new_record name w) c ''completed''],
                   clock_reads := Suc (clock_reads w),
                   incoming := filter (\<lambda>p. fst p \<noteq> name) (incoming w),
                   processed := (dest_name ev name w, content)
                                # filter (\<lambda>p. fst p \<noteq> dest_name ev name w) (processed w)\<rparr>"
        using ps by simp
      then show ?thesis using new(1,2) cnt rr Inr c None content
        by (simp add: counted_def new_record_def)
    next
      case (Some e)
      then have "w' = w2\<lparr>csv_records := csv_records w @ [counted (new_record name w) c ''failed''],
                   clock_reads := Suc (clock_reads w)\<rparr>"
        using ps by simp
      then show ?thesis using new(1,2) cnt rr Inr c Some inc prc
        by (simp add: counted_def new_record_def)
    qed
  qed
qed

lemma process_single_csv_find:
  "csv_records (process_single_csv ev name w) = csv_records w @ [r] \<Longrightarrow> pk r = fresh_pk w \<Longrightarrow>
   find_record (process_single_csv ev name w) (fresh_pk w) = Some r"
  using find_record_last[of "process_single_csv ev name w" "csv_records w" r] old_keys_differ[of w]
  by simp

text \<open>
  C1.  When the processing record of a file ends as \<open>completed\<close> (no exception reached the
  \<^verbatim>\<open>except\<close> clause), with \<open>N\<close> the number of data rows of the file and \<open>M\<close> the number of
  those with a non-empty zip and a non-empty email after trimming: \<open>total_rows = N\<close>,
  \<open>successful_rows + failed_rows = N\<close> and \<open>failed_rows \<ge> N - M\<close>.
\<close>

theorem completed_file_counts:
  assumes "find_record (process_single_csv ev name w) (fresh_pk w) = Some r"
    and "status r = ''completed''"
  shows "total_rows r = int (length (data_rows (open_file w name)))
       \<and> successful_rows r + failed_rows r = int (length (data_rows (open_file w name)))
       \<and> failed_rows r \<ge> int (length (data_rows (open_file w name)))
                          - int (length (filter has_zip_and_email (data_rows (open_file w name))))"
proof -
  from process_single_csv_summary[of ev name w] obtain r' new where
    s: "csv_records (process_single_csv ev name w) = csv_records w @ [r']" "pk r' = fresh_pk w"
    and d: "r' = (new_record name w)\<lparr>status := ''failed''\<rparr>
            \<or> total_rows r' = int (length (data_rows (open_file w name)))
              \<and> successful_rows r' + failed_rows r' = int (length (data_rows (open_file w name)))
              \<and> successful_rows r' \<le> int (length (filter has_zip_and_email (data_rows (open_file w name))))"
    by blast
  have "r' = r" using process_single_csv_find[OF s] assms(1) by simp
  moreover have "status ((new_record name w)\<lparr>status := ''failed''\<rparr>) \<noteq> ''completed''" by simp
  ultimately show ?thesis using d assms(2) by auto
qed

text \<open>The definitions that evaluate the command on a concrete input.\<close>

lemmas eval_defs =
  process_single_csv_def create_csv_record_def fresh_pk_def open_file_def read_rows_def
  DictReader_def make_row_def row_step_def row_get_def strip_def isspace_def
  process_row_def get_location_from_zip_def api_call_def zip_api_timeout_def
  fetch_location_def raise_for_status_def extract_location_def
  send_email_to_address_def create_email_record_def failure_record_def missing_record_def
  save_def move_to_processed_def new_filename_def stem_def suffix_def rfind_dot_def
  strftime_def pad2_def digit_char_def find_record_def data_rows_def
  has_zip_and_email_def text_fields_def trimmed_def is_text_def
  example_env_def example_settings_def example_world_def example_response_def
  beverly_hills_def scenario_env_def scenario_world_def scenario_file_def Let_def

text \<open>
  The scenario: three rows, one of them complete; one request, one message, three email
  records, the counts 3, 1 and 2, and the file moved under its stamped name.
\<close>

lemma scenario_result:
  "process_single_csv scenario_env ''input.csv'' scenario_world
   = \<lparr>incoming = [],
      processed = [(''input_20240115_093000.csv'', scenario_file)],
      csv_records =
        [\<lparr>pk = 1, filename = ''input.csv'', total_rows = 3, successful_rows = 1,
          failed_rows = 2, status = ''completed''\<rparr>],
      email_records =
        [\<lparr>processing_record = 1, email_address = ''a@x.com'', zip_code = ''90210'',
          state = JStr ''California'', city = JStr ''Beverly Hills'', success = True,
          error_message = None\<rparr>,
         \<lparr>processing_record = 1, email_address = ''b@x.com'', zip_code = ''N/A'',
          state = JNull, city = JNull, success = False,
          error_message = Some ''Missing zip code or email''\<rparr>,
         \<lparr>processing_record = 1, email_address = ''N/A'', zip_code = ''10001'',
          state = JNull, city = JNull, success = False,
          error_message = Some ''Missing zip code or email''\<rparr>],
      api_calls = [(''https://api.zippopotam.us/us/90210'', 5)],
      mail_attempts = [build_mail scenario_env ''a@x.com'' ''90210'' (JStr ''California'') (JStr ''Beverly Hills'')],
      outbox = [build_mail scenario_env ''a@x.com'' ''90210'' (JStr ''California'') (JStr ''Beverly Hills'')],
      clock_reads = 1\<rparr>"
  by (simp add: eval_defs)

theorem completed_file_counts_witness:
  "find_record (process_single_csv scenario_env ''input.csv'' scenario_world)
     (fresh_pk scenario_world)
     = Some \<lparr>pk = 1, filename = ''input.csv'', total_rows = 3, successful_rows = 1,
              failed_rows = 2, status = ''completed''\<rparr>
   \<and> int (length (data_rows (open_file scenario_world ''input.csv''))) = 3
   \<and> int (length (filter has_zip_and_email
                    (data_rows (open_file scenario_world ''input.csv'')))) = 1"
  using completed_file_counts
          [of scenario_env "''input.csv''" scenario_world
              "\<lparr>pk = 1, filename = ''input.csv'', total_rows = 3, successful_rows = 1,
                failed_rows = 2, status = ''completed''\<rparr>"]
  by (simp add: eval_defs)

text \<open>
  C3, as stated, fails: for the row \<^verbatim>\<open>,b@x.com\<close> the stored error message is
  \<^verbatim>\<open>Missing zip code or email\<close>, with a capital letter, not \<^verbatim>\<open>missing zip code or email\<close>.
\<close>

theorem missing_row_message_differs:
  "row_step scenario_env example_record no_zip_row (0, 0, 0) (example_world [])
   = (Inr (1, 0, 1),
      (example_world [])
        \<lparr>email_records :=
           [\<lparr>processing_record = 1, email_address = ''b@x.com'', zip_code = ''N/A'',
             state = JNull, city = JNull, success = False,
             error_message = Some ''Missing zip code or email''\<rparr>]\<rparr>)
   \<and> ''Missing zip code or email'' \<noteq> ''missing zip code or email''"
  by (simp add: eval_defs no_zip_row_def example_record_def)

text \<open>
  C3, amended.  For every row for which \<^verbatim>\<open>row.get('zip', '')\<close> and \<^verbatim>\<open>row.get('email', '')\<close>
  are strings and whose trimmed zip or trimmed email is empty: the turn of the loop adds
  one to \<open>total_rows\<close> and to \<open>failed_rows\<close>, stores exactly one email record, with
  \<open>success\<close> unset, the error message \<^verbatim>\<open>Missing zip code or email\<close> and \<^verbatim>\<open>N/A\<close> for each empty
  field, issues no request and hands no message to the transport, and the loop goes on
  with the next row.
\<close>

theorem missing_data_row:
  assumes "text_fields row"
    and "trimmed row ''zip'' = [] \<or> trimmed row ''email'' = []"
  shows "row_step ev r row (t, s, f) w
         = (Inr (t + 1, s, f + 1),
            w\<lparr>email_records :=
                 email_records w
                 @ [\<lparr>processing_record = pk r,
                      email_address = (if trimmed row ''email'' = [] then ''N/A''
                                       else trimmed row ''email''),
                      zip_code = (if trimmed row ''zip'' = [] then ''N/A''
                                  else trimmed row ''zip''),
                      state = JNull, city = JNull, success = False,
                      error_message = Some ''Missing zip code or email''\<rparr>]\<rparr>)
       \<and> api_calls (snd (row_step ev r row (t, s, f) w)) = api_calls w
       \<and> mail_attempts (snd (row_step ev r row (t, s, f) w)) = mail_attempts w
       \<and> outbox (snd (row_step ev r row (t, s, f) w)) = outbox w
       \<and> rows_loop ev r (row # rows) (t, s, f) w
         = rows_loop ev r rows (t + 1, s, f + 1) (snd (row_step ev r row (t, s, f) w))"
proof -
  obtain z where z: "row_get row ''zip'' = VStr z"
    using assms(1) by (cases "row_get row ''zip''") (auto simp add: text_fields_def is_text_def)
  obtain e where e: "row_get row ''email'' = VStr e"
    using assms(1) by (cases "row_get row ''email''") (auto simp add: text_fields_def is_text_def)
  have st: "row_step ev r row (t, s, f) w
         = (Inr (t + 1, s, f + 1),
            w\<lparr>email_records :=
                 email_records w
                 @ [\<lparr>processing_record = pk r,
                      email_address = (if trimmed row ''email'' = [] then ''N/A''
                                       else trimmed row ''email''),
                      zip_code = (if trimmed row ''zip'' = [] then ''N/A''
                                  else trimmed row ''zip''),
                      state = JNull, city = JNull, success = False,
                      error_message = Some ''Missing zip code or email''\<rparr>]\<rparr>)"
    using assms(2) z e
    by (auto simp add: row_step_def trimmed_def create_email_record_def missing_record_def)
  show ?thesis by (simp add: st)
qed

theorem missing_data_row_witness:
  "text_fields no_zip_row \<and> trimmed no_zip_row ''zip'' = []
   \<and> row_step scenario_env example_record no_zip_row (0, 0, 0) (example_world [])
     = (Inr (1, 0, 1),
        (example_world [])
          \<lparr>email_records :=
             [\<lparr>processing_record = 1, email_address = ''b@x.com'', zip_code = ''N/A'',
               state = JNull, city = JNull, success = False,
               error_message = Some ''Missing zip code or email''\<rparr>]\<rparr>)"
  using missing_data_row[of no_zip_row scenario_env example_record 0 0 0 "example_world []" "[]"]
  by (simp add: eval_defs no_zip_row_def example_record_def)

lemma stem_suffix: "stem name @ suffix name = name"
  by (simp add: stem_def suffix_def Let_def)

lemma isdigit_digit_char: "d < 10 \<Longrightarrow> isdigit (digit_char d)"
proof -
  assume "d < 10"
  then have "d < length ''0123456789''" by simp
  then have "''0123456789'' ! d \<in> set ''0123456789''" by (rule nth_mem)
  then show ?thesis by (simp only: isdigit_def digit_char_def)
qed

lemma pad2_form: "length (pad2 n) = 2 \<and> list_all isdigit (pad2 n)"
  by (simp add: pad2_def isdigit_digit_char)

lemma str_nat_1: "n < 10 \<Longrightarrow> length (str_nat n) = 1 \<and> list_all isdigit (str_nat n)"
  by (simp add: isdigit_digit_char)

lemma str_nat_step:
  assumes "10 \<le> n" and "length (str_nat (n div 10)) = k \<and> list_all isdigit (str_nat (n div 10))"
  shows "length (str_nat n) = Suc k \<and> list_all isdigit (str_nat n)"
proof -
  have "str_nat n = str_nat (n div 10) @ [digit_char (n mod 10)]"
    using assms(1) by (subst str_nat.simps) simp
  then show ?thesis using assms(2) by (simp add: isdigit_digit_char)
qed

lemma str_nat_4:
  assumes "1000 \<le> n" and "n \<le> 9999"
  shows "length (str_nat n) = 4 \<and> list_all isdigit (str_nat n)"
proof -
  have a: "n div 10 div 10 div 10 < 10" using assms by simp
  have b: "10 \<le> n div 10 div 10" using assms by simp
  have c: "10 \<le> n div 10" using assms by simp
  have d: "10 \<le> n" using assms by simp
  from str_nat_step[OF d str_nat_step[OF c str_nat_step[OF b str_nat_1[OF a]]]]
  show ?thesis by simp
qed

lemma timestamp_form_strftime:
  assumes "1000 \<le> year dt" and "year dt \<le> 9999"
  shows "timestamp_form (strftime dt)"
proof -
  obtain y where y: "str_nat (year dt) = y" by simp
  have yl: "length y = 4" "list_all isdigit y" using str_nat_4[OF assms] y by simp_all
  obtain a b c d where abcd: "y = [a, b, c, d]"
    using yl(1) by (auto simp add: length_Suc_conv numeral_eq_Suc)
  show ?thesis
    using yl(2) pad2_form[of "month dt"] pad2_form[of "day dt"] pad2_form[of "hour dt"]
      pad2_form[of "minute dt"] pad2_form[of "second dt"]
    unfolding timestamp_form_def strftime_def y abcd
    by (auto simp add: pad2_def isdigit_def)
qed

text \<open>
  C9.  When the processing record of a file ends as \<open>completed\<close> (and the clock shows a
  year of four digits): no file of that name is left in the incoming directory, and the
  processed directory holds its contents under the name made of the stem, an underscore,
  the timestamp and the suffix of the original name; the timestamp \<^verbatim>\<open>YYYYMMDD_HHMMSS\<close> is
  eight digits, an underscore and six digits (fourteen digits in all); stem and suffix
  together are the original name.
\<close>

theorem completed_file_moved:
  assumes "find_record (process_single_csv ev name w) (fresh_pk w) = Some r"
    and "status r = ''completed''"
    and "1000 \<le> year (now ev (clock_reads w))" and "year (now ev (clock_reads w)) \<le> 9999"
  shows "name \<notin> fst ` set (incoming (process_single_csv ev name w))
       \<and> (\<exists>content. map_of (incoming w) name = Some content
            \<and> map_of (processed (process_single_csv ev name w))
                 (stem name @ ''_'' @ strftime (now ev (clock_reads w)) @ suffix name)
               = Some content)
       \<and> timestamp_form (strftime (now ev (clock_reads w)))
       \<and> stem name @ suffix name = name"
proof -
  from process_single_csv_summary[of ev name w] obtain r' new where
    s: "csv_records (process_single_csv ev name w) = csv_records w @ [r']" "pk r' = fresh_pk w"
    and d: "r' = (new_record name w)\<lparr>status := ''failed''\<rparr>
            \<or> (status r' = ''failed''
               \<or> incoming (process_single_csv ev name w) = filter (\<lambda>p. fst p \<noteq> name) (incoming w)
                 \<and> (\<exists>content. map_of (incoming w) name = Some content
                          \<and> processed (process_single_csv ev name w)
                              = (dest_name ev name w, content)
                                # filter (\<lambda>p. fst p \<noteq> dest_name ev name w) (processed w)))"
    by blast
  have "r' = r" using process_single_csv_find[OF s] assms(1) by simp
  then have "status r' = ''completed''" using assms(2) by simp
  then have m: "incoming (process_single_csv ev name w) = filter (\<lambda>p. fst p \<noteq> name) (incoming w)
                 \<and> (\<exists>content. map_of (incoming w) name = Some content
                          \<and> processed (process_single_csv ev name w)
                              = (dest_name ev name w, content)
                                # filter (\<lambda>p. fst p \<noteq> dest_name ev name w) (processed w))"
    using d by (auto simp add: new_record_def)
  have dn: "dest_name ev name w = stem name @ ''_'' @ strftime (now ev (clock_reads w)) @ suffix name"
    by (simp add: dest_name_def new_filename_def)
  show ?thesis using m dn timestamp_form_strftime[OF assms(3,4)] stem_suffix[of name]
    by auto
qed

theorem completed_file_moved_witness:
  "find_record (process_single_csv scenario_env ''input.csv'' scenario_world)
     (fresh_pk scenario_world)
     = Some \<lparr>pk = 1, filename = ''input.csv'', total_rows = 3, successful_rows = 1,
              failed_rows = 2, status = ''completed''\<rparr>
   \<and> year (now scenario_env (clock_reads scenario_world)) = 2024
   \<and> incoming (process_single_csv scenario_env ''input.csv'' scenario_world) = []
   \<and> processed (process_single_csv scenario_env ''input.csv'' scenario_world)
     = [(''input_20240115_093000.csv'', scenario_file)]
   \<and> stem ''input.csv'' = ''input'' \<and> suffix ''input.csv'' = ''.csv''
   \<and> strftime (now scenario_env (clock_reads scenario_world)) = ''20240115_093000''"
  using completed_file_moved
          [of scenario_env "''input.csv''" scenario_world
              "\<lparr>pk = 1, filename = ''input.csv'', total_rows = 3, successful_rows = 1,
                failed_rows = 2, status = ''completed''\<rparr>"]
  by (simp add: eval_defs)

section \<open>Properties of the tables\<close>

lemma new_rows_count:
  assumes "foreign_keys_ok w"
    and "email_records w' = email_records w @ new"
    and "\<forall>e \<in> set new. processing_record e = fresh_pk w"
  shows "row_count w' (fresh_pk w) = length new"
    and "k \<noteq> fresh_pk w \<Longrightarrow> row_count w' k = row_count w k"
proof -
  have old: "filter (\<lambda>e. processing_record e = fresh_pk w) (email_records w) = []"
    using assms(1) old_keys_differ[of w]
    by (auto simp add: foreign_keys_ok_def filter_empty_conv)
  have nw: "filter (\<lambda>e. processing_record e = fresh_pk w) new = new"
    using assms(3) by (simp add: filter_id_conv)
  show "row_count w' (fresh_pk w) = length new"
    using old nw assms(2) by (simp add: row_count_def)
  assume "k \<noteq> fresh_pk w"
  then have "filter (\<lambda>e. processing_record e = k) new = []"
    using assms(3) by (auto simp add: filter_empty_conv)
  then show "row_count w' k = row_count w k"
    using assms(2) by (simp add: row_count_def)
qed

lemma process_single_csv_terminal:
  "\<exists>r. csv_records (process_single_csv ev name w) = csv_records w @ [r]
      \<and> pk r = fresh_pk w \<and> filename r = name \<and> terminal r"
proof -
  from process_single_csv_summary[of ev name w] obtain r new where
    a: "csv_records (process_single_csv ev name w) = csv_records w @ [r]"
       "pk r = fresh_pk w" "filename r = name"
    and d: "r = (new_record name w)\<lparr>status := ''failed''\<rparr>
            \<or> status r = ''failed'' \<or> status r = ''completed''"
    by blast
  have "status ((new_record name w)\<lparr>status := ''failed''\<rparr>) = ''failed''" by simp
  then have "terminal r" using d unfolding terminal_def by metis
  then show ?thesis using a by blast
qed

lemma db_invariant_step:
  assumes "db_invariant w"
  shows "db_invariant (process_single_csv ev name w)"
proof -
  let ?w' = "process_single_csv ev name w"
  have fk: "foreign_keys_ok w" and ok: "\<forall>r \<in> set (csv_records w). terminal r \<longrightarrow> record_ok w r"
    using assms by (simp_all add: db_invariant_def)
  from process_single_csv_summary[of ev name w] obtain r new where
    cr: "csv_records ?w' = csv_records w @ [r]" and pkr: "pk r = fresh_pk w"
    and er: "email_records ?w' = email_records w @ new"
    and nw: "\<forall>e \<in> set new. processing_record e = fresh_pk w"
    and d: "r = (new_record name w)\<lparr>status := ''failed''\<rparr>
            \<or> total_rows r = int (length (data_rows (open_file w name)))
              \<and> successful_rows r + failed_rows r = int (length (data_rows (open_file w name)))
              \<and> length new = length (data_rows (open_file w name))"
    by blast
  note cnt = new_rows_count[OF fk er nw]
  have fk': "foreign_keys_ok ?w'"
    using fk nw pkr unfolding foreign_keys_ok_def cr er by auto
  have new_ok: "record_ok ?w' r"
    using d cnt(1) pkr by (auto simp add: record_ok_def new_record_def)
  have old_ok: "record_ok ?w' x" if "x \<in> set (csv_records w)" "terminal x" for x
  proof -
    have "pk x \<noteq> fresh_pk w" using that(1) old_keys_differ by blast
    then have "row_count ?w' (pk x) = row_count w (pk x)" using cnt(2) by blast
    moreover have "record_ok w x" using ok that by blast
    ultimately show ?thesis by (simp add: record_ok_def)
  qed
  show ?thesis
    unfolding db_invariant_def cr using fk' new_ok old_ok by auto
qed

lemma db_invariant_fold:
  "db_invariant w \<Longrightarrow> db_invariant (fold (process_single_csv ev) names w)"
  by (induction names arbitrary: w) (simp_all add: db_invariant_step)

lemma fold_records:
  "\<exists>rs. csv_records (fold (process_single_csv ev) names w) = csv_records w @ rs
       \<and> map filename rs = names \<and> (\<forall>r \<in> set rs. terminal r)"
proof (induction names arbitrary: w)
  case Nil
  then show ?case by simp
next
  case (Cons n names)
  from process_single_csv_terminal[of ev n w] obtain r where
    r: "csv_records (process_single_csv ev n w) = csv_records w @ [r]" "filename r = n" "terminal r"
    by blast
  from Cons.IH[of "process_single_csv ev n w"] obtain rs where
    rs: "csv_records (fold (process_single_csv ev) names (process_single_csv ev n w))
         = csv_records (process_single_csv ev n w) @ rs"
      "map filename rs = names" "\<forall>r \<in> set rs. terminal r"
    by blast
  have "csv_records (fold (process_single_csv ev) (n # names) w) = csv_records w @ (r # rs)
        \<and> map filename (r # rs) = n # names \<and> (\<forall>x \<in> set (r # rs). terminal x)"
    using r rs by simp
  then show ?case by (rule exI[of _ "r # rs"])
qed

text \<open>
  C2, amended.  Starting from tables in which every email record belongs to a processing
  record and every processing record in a terminal status (\<open>completed\<close> or \<open>failed\<close>) has
  \<open>total_rows = successful_rows + failed_rows\<close>, owns at least \<open>total_rows\<close> email records,
  and owns exactly \<open>total_rows\<close> of them when it is \<open>completed\<close>, a pass of
  \<^verbatim>\<open>process_csv_files\<close> leaves tables of which the same holds; and every processing record
  that the pass adds is in a terminal status.
\<close>

theorem terminal_records_consistent:
  assumes "db_invariant w"
  shows "db_invariant (process_csv_files ev w)
       \<and> (\<forall>r \<in> set (csv_records (process_csv_files ev w)).
            r \<in> set (csv_records w) \<or> terminal r)
       \<and> (\<forall>r \<in> set (csv_records (process_csv_files ev w)).
            terminal r \<longrightarrow>
              total_rows r = successful_rows r + failed_rows r
              \<and> total_rows r \<le> int (row_count (process_csv_files ev w) (pk r))
              \<and> (status r = ''completed'' \<longrightarrow>
                   int (row_count (process_csv_files ev w) (pk r)) = total_rows r))"
proof -
  have w': "process_csv_files ev w = fold (process_single_csv ev) (glob_csv w) w"
    by (simp add: process_csv_files_def Let_def)
  have inv: "db_invariant (process_csv_files ev w)"
    unfolding w' using assms by (rule db_invariant_fold)
  from fold_records[of ev "glob_csv w" w] have
    "\<forall>r \<in> set (csv_records (process_csv_files ev w)). r \<in> set (csv_records w) \<or> terminal r"
    unfolding w' by auto
  then show ?thesis using inv by (auto simp add: db_invariant_def record_ok_def)
qed

text \<open>
  C2, as stated, fails: when the reader raises after the first data row, the processing
  record ends as \<open>failed\<close> with \<open>total_rows = 0\<close>, while the email record of the first row
  has been stored.
\<close>

theorem failed_record_row_count_differs:
  "csv_records (process_csv_files scenario_env (example_world [(''input.csv'', broken_file)]))
     = [\<lparr>pk = 1, filename = ''input.csv'', total_rows = 0, successful_rows = 0,
         failed_rows = 0, status = ''failed''\<rparr>]
   \<and> row_count (process_csv_files scenario_env (example_world [(''input.csv'', broken_file)])) 1
     = 1"
  by (simp add: process_csv_files_def glob_csv_def endswith_def row_count_def eval_defs
      broken_file_def)

theorem terminal_records_consistent_witness:
  "csv_records scenario_world = [] \<and> email_records scenario_world = []
   \<and> csv_records (process_csv_files scenario_env scenario_world)
     = [\<lparr>pk = 1, filename = ''input.csv'', total_rows = 3, successful_rows = 1,
         failed_rows = 2, status = ''completed''\<rparr>]
   \<and> row_count (process_csv_files scenario_env scenario_world) 1 = 3"
  using terminal_records_consistent[of scenario_world scenario_env]
  by (simp add: process_csv_files_def glob_csv_def endswith_def row_count_def eval_defs
      db_invariant_def foreign_keys_ok_def)

section \<open>Properties of a pass over the incoming files\<close>

lemma map_of_filter_other:
  "n \<noteq> m \<Longrightarrow> map_of (filter (\<lambda>p. fst p \<noteq> m) xs) n = map_of xs n"
  by (induction xs) auto

lemma process_single_csv_incoming:
  "n \<noteq> name \<Longrightarrow>
   map_of (incoming (process_single_csv ev name w)) n = map_of (incoming w) n"
proof -
  assume n: "n \<noteq> name"
  from process_single_csv_summary[of ev name w] have
    "incoming (process_single_csv ev name w) = incoming w
     \<or> incoming (process_single_csv ev name w) = filter (\<lambda>p. fst p \<noteq> name) (incoming w)"
    by blast
  then show ?thesis using map_of_filter_other[OF n] by auto
qed

lemma files_done_incoming:
  "n \<notin> set names \<Longrightarrow> map_of (incoming (files_done ev names w)) n = map_of (incoming w) n"
proof (induction names arbitrary: w)
  case Nil
  then show ?case by (simp add: files_done_def)
next
  case (Cons m names)
  have "map_of (incoming (files_done ev names (process_single_csv ev m w))) n
        = map_of (incoming (process_single_csv ev m w)) n"
    using Cons by simp
  also have "\<dots> = map_of (incoming w) n"
    using Cons.prems process_single_csv_incoming[of n m ev w] by simp
  finally show ?case by (simp add: files_done_def)
qed

lemma files_done_records:
  "\<exists>rs. csv_records (files_done ev names w) = csv_records w @ rs
       \<and> map filename rs = names \<and> (\<forall>r \<in> set rs. terminal r)"
  unfolding files_done_def by (rule fold_records)

lemma files_done_append:
  "files_done ev (xs @ n # ys) w = files_done ev ys (process_single_csv ev n (files_done ev xs w))"
  by (simp add: files_done_def)

lemma find_record_prefix:
  assumes "find_record w k = Some r" and "csv_records w' = csv_records w @ rs"
  shows "find_record w' k = Some r"
proof -
  have "find P xs = Some x \<Longrightarrow> find P (xs @ ys) = Some x" for P xs ys and x :: CSVProcessingRecord
    by (induction xs) (auto split: if_splits)
  then show ?thesis using assms by (simp add: find_record_def)
qed

text \<open>
  C6.  In a pass over the files \<open>before\<close>, \<open>name\<close>, \<open>after\<close> of a directory, let opening,
  reading or iterating the file \<open>name\<close> raise an exception when its turn comes.  Then
  \<^verbatim>\<open>process_single_csv\<close> returns, leaving the processing record of the file stored with
  status \<open>failed\<close> and both directories as they were; the pass goes on with the files
  \<open>after\<close>, each of which gets its processing record in a terminal status; and at the end
  of the pass the record of \<open>name\<close> is still \<open>failed\<close> and the file is still in the
  incoming directory with its contents.  \<^verbatim>\<open>process_single_csv\<close> and \<^verbatim>\<open>process_csv_files\<close> have
  a value for every input: the exception is not raised again.
\<close>

theorem failing_file_contained:
  assumes "distinct (map fst (incoming w))"
    and "glob_csv w = before @ name # after"
    and "fst (reading_result ev name (files_done ev before w)) = Inl e"
  shows "find_record (process_single_csv ev name (files_done ev before w))
           (fresh_pk (files_done ev before w))
         = Some \<lparr>pk = fresh_pk (files_done ev before w), filename = name, total_rows = 0,
                  successful_rows = 0, failed_rows = 0, status = ''failed''\<rparr>
       \<and> incoming (process_single_csv ev name (files_done ev before w))
         = incoming (files_done ev before w)
       \<and> processed (process_single_csv ev name (files_done ev before w))
         = processed (files_done ev before w)
       \<and> process_csv_files ev w
         = files_done ev after (process_single_csv ev name (files_done ev before w))
       \<and> (\<exists>rs. csv_records (process_csv_files ev w)
                 = csv_records (process_single_csv ev name (files_done ev before w)) @ rs
               \<and> map filename rs = after \<and> (\<forall>r \<in> set rs. terminal r))
       \<and> find_record (process_csv_files ev w) (fresh_pk (files_done ev before w))
         = Some \<lparr>pk = fresh_pk (files_done ev before w), filename = name, total_rows = 0,
                  successful_rows = 0, failed_rows = 0, status = ''failed''\<rparr>
       \<and> map_of (incoming (process_csv_files ev w)) name = map_of (incoming w) name
       \<and> name \<in> fst ` set (incoming (process_csv_files ev w))"
proof -
  let ?wb = "files_done ev before w"
  let ?w1 = "process_single_csv ev name ?wb"
  let ?rf = "\<lparr>pk = fresh_pk ?wb, filename = name, total_rows = 0,
                  successful_rows = 0, failed_rows = 0, status = ''failed''\<rparr>"
  obtain w2 where rr: "reading_result ev name ?wb = (Inl e, w2)"
    using assms(3) by (cases "reading_result ev name ?wb") simp
  have w1: "?w1 = w2\<lparr>csv_records := csv_records ?wb @ [(new_record name ?wb)\<lparr>status := ''failed''\<rparr>]\<rparr>"
    using process_single_csv_read_failure[OF rr] .
  have eff: "incoming w2 = incoming ?wb" "processed w2 = processed ?wb"
    using reading_result_effect[OF rr] by simp_all
  have rf: "(new_record name ?wb)\<lparr>status := ''failed''\<rparr> = ?rf"
    by (simp add: new_record_def)
  have cr1: "csv_records ?w1 = csv_records ?wb @ [?rf]" using w1 rf by simp
  have f1: "find_record ?w1 (fresh_pk ?wb) = Some ?rf"
    using process_single_csv_find[OF cr1] by simp
  have i1: "incoming ?w1 = incoming ?wb" and p1: "processed ?w1 = processed ?wb"
    using w1 eff by simp_all
  have pass: "process_csv_files ev w = files_done ev after ?w1"
    using assms(2) files_done_append[of ev before name after w]
    by (simp add: process_csv_files_def files_done_def Let_def)
  from files_done_records[of ev after ?w1] obtain rs where
    rs: "csv_records (files_done ev after ?w1) = csv_records ?w1 @ rs"
        "map filename rs = after" "\<forall>r \<in> set rs. terminal r"
    by blast
  have f2: "find_record (process_csv_files ev w) (fresh_pk ?wb) = Some ?rf"
    unfolding pass using find_record_prefix[OF f1 rs(1)] .
  have dg: "distinct (glob_csv w)"
    using assms(1) unfolding glob_csv_def by (rule distinct_filter)
  then have nb: "name \<notin> set before" and na: "name \<notin> set after"
    using assms(2) by auto
  have m1: "map_of (incoming ?wb) name = map_of (incoming w) name"
    using files_done_incoming[OF nb] .
  have m2: "map_of (incoming (process_csv_files ev w)) name = map_of (incoming w) name"
    unfolding pass using files_done_incoming[OF na, of ev ?w1] i1 m1 by simp
  have "name \<in> set (glob_csv w)" using assms(2) by simp
  then have "name \<in> fst ` set (incoming w)" by (auto simp add: glob_csv_def)
  then have "map_of (incoming w) name \<noteq> None" by (simp add: map_of_eq_None_iff)
  then have "map_of (incoming (process_csv_files ev w)) name \<noteq> None" using m2 by simp
  then have mem: "name \<in> fst ` set (incoming (process_csv_files ev w))"
    by (simp add: map_of_eq_None_iff)
  have ex: "\<exists>rs. csv_records (process_csv_files ev w) = csv_records ?w1 @ rs
               \<and> map filename rs = after \<and> (\<forall>r \<in> set rs. terminal r)"
    unfolding pass using rs by blast
  show ?thesis using f1 i1 p1 pass ex f2 m2 mem by blast
qed

theorem failing_file_contained_witness:
  "glob_csv two_files_world = [] @ ''a.csv'' # [''b.csv'']
   \<and> fst (reading_result scenario_env ''a.csv'' (files_done scenario_env [] two_files_world))
     = Inl (Exn OtherError ''line contains NUL'')
   \<and> csv_records (process_csv_files scenario_env two_files_world)
     = [\<lparr>pk = 1, filename = ''a.csv'', total_rows = 0, successful_rows = 0,
         failed_rows = 0, status = ''failed''\<rparr>,
        \<lparr>pk = 2, filename = ''b.csv'', total_rows = 3, successful_rows = 1,
         failed_rows = 2, status = ''completed''\<rparr>]
   \<and> incoming (process_csv_files scenario_env two_files_world) = [(''a.csv'', broken_file)]
   \<and> map fst (processed (process_csv_files scenario_env two_files_world))
     = [''b_20240115_093000.csv'']"
  using failing_file_contained
          [of two_files_world "[]" "''a.csv''" "[''b.csv'']" scenario_env
              "Exn OtherError ''line contains NUL''"]
  by (simp add: process_csv_files_def glob_csv_def endswith_def files_done_def
      reading_result_def two_files_world_def broken_file_def eval_defs)

section \<open>Files without a \<^verbatim>\<open>zip\<close> or an \<^verbatim>\<open>email\<close> column\<close>

lemma fold_fields_other:
  "k \<notin> fst ` set kvs \<Longrightarrow>
   fold (\<lambda>(k, v) m. m(Some k \<mapsto> VStr v)) kvs m (Some k) = m (Some k)"
  by (induction kvs arbitrary: m) auto

lemma fold_restval_other:
  "k \<notin> set ks \<Longrightarrow> fold (\<lambda>k m. m(Some k \<mapsto> VNone)) ks m (Some k) = m (Some k)"
  by (induction ks arbitrary: m) auto

lemma make_row_absent:
  assumes "k \<notin> set header"
  shows "make_row header row (Some k) = None"
proof -
  have a: "k \<notin> fst ` set (zip header row)"
    using assms by (auto dest: set_zip_leftD)
  have b: "k \<notin> set (drop (length row) header)"
    using assms by (auto dest: in_set_dropD)
  show ?thesis
    using fold_fields_other[OF a, of Map.empty] fold_restval_other[OF b]
    by (simp add: make_row_def Let_def)
qed

lemma strip_empty: "strip [] = []"
  by (simp add: strip_def)

lemma trimmed_absent: "k \<notin> set header \<Longrightarrow> trimmed (make_row header row) k = []"
  by (simp add: trimmed_def row_get_def make_row_absent strip_empty)

lemma row_step_missing:
  assumes "text_fields row"
    and "trimmed row ''zip'' = [] \<or> trimmed row ''email'' = []"
  shows "row_step ev r row (t, s, f) w
         = (Inr (t + 1, s, f + 1),
            w\<lparr>email_records := email_records w @ [missing_row_record r row]\<rparr>)"
proof -
  obtain z where z: "row_get row ''zip'' = VStr z"
    using assms(1) by (cases "row_get row ''zip''") (auto simp add: text_fields_def is_text_def)
  obtain e where e: "row_get row ''email'' = VStr e"
    using assms(1) by (cases "row_get row ''email''") (auto simp add: text_fields_def is_text_def)
  show ?thesis
    using assms(2) z e
    by (auto simp add: row_step_def trimmed_def create_email_record_def missing_row_record_def)
qed

lemma rows_loop_all_missing:
  assumes "\<forall>row \<in> set rows. text_fields row
             \<and> (trimmed row ''zip'' = [] \<or> trimmed row ''email'' = [])"
  shows "rows_loop ev r rows (t, s, f) w
         = (Inr (t + int (length rows), s, f + int (length rows)),
            w\<lparr>email_records := email_records w @ map (missing_row_record r) rows\<rparr>)"
  using assms
proof (induction rows arbitrary: t f w)
  case Nil
  then show ?case by simp
next
  case (Cons row rows)
  have st: "row_step ev r row (t, s, f) w
         = (Inr (t + 1, s, f + 1),
            w\<lparr>email_records := email_records w @ [missing_row_record r row]\<rparr>)"
    using Cons.prems row_step_missing by simp
  have ih: "rows_loop ev r rows (t + 1, s, f + 1)
              (w\<lparr>email_records := email_records w @ [missing_row_record r row]\<rparr>)
            = (Inr (t + 1 + int (length rows), s, f + 1 + int (length rows)),
               w\<lparr>email_records := email_records w @ [missing_row_record r row]\<rparr>
                \<lparr>email_records :=
                   email_records (w\<lparr>email_records := email_records w @ [missing_row_record r row]\<rparr>)
                   @ map (missing_row_record r) rows\<rparr>)"
    using Cons.IH[of "t + 1" "f + 1"] Cons.prems by simp
  show ?case by (simp add: st ih)
qed

text \<open>
  C10, amended.  For every input file that is read to its end without an exception,
  whose header lacks the \<^verbatim>\<open>zip\<close> column, the \<^verbatim>\<open>email\<close> column or both, in which every data
  row has text for whichever of the two columns the header names, and whose move to the
  processed directory succeeds: every data row is stored as a missing-data failure (an
  email record with \<open>success\<close> unset, the message \<^verbatim>\<open>Missing zip code or email\<close> and \<^verbatim>\<open>N/A\<close> for
  the field of the lacking column), no request is issued and no message handed over, the
  processing record ends as \<open>completed\<close> with \<open>total_rows\<close> and \<open>failed_rows\<close> equal to the
  number of data rows and \<open>successful_rows\<close> zero, and the file is moved.
\<close>

theorem missing_column_file:
  assumes "open_file w name = Records (header # rest) None"
    and "''zip'' \<notin> set header \<or> ''email'' \<notin> set header"
    and "\<forall>row \<in> set (DictReader (header # rest)). text_fields row"
    and "shutil_move ev name (dest_name ev name w) = None"
  shows "find_record (process_single_csv ev name w) (fresh_pk w)
         = Some \<lparr>pk = fresh_pk w, filename = name,
                  total_rows = int (length (DictReader (header # rest))),
                  successful_rows = 0,
                  failed_rows = int (length (DictReader (header # rest))),
                  status = ''completed''\<rparr>
       \<and> email_records (process_single_csv ev name w)
         = email_records w
           @ map (missing_row_record (new_record name w)) (DictReader (header # rest))
       \<and> (\<forall>row \<in> set (DictReader (header # rest)).
            processing_record (missing_row_record (new_record name w) row) = fresh_pk w
            \<and> success (missing_row_record (new_record name w) row) = False
            \<and> error_message (missing_row_record (new_record name w) row)
                = Some ''Missing zip code or email''
            \<and> (''zip'' \<notin> set header \<longrightarrow>
                 zip_code (missing_row_record (new_record name w) row) = ''N/A'')
            \<and> (''email'' \<notin> set header \<longrightarrow>
                 email_address (missing_row_record (new_record name w) row) = ''N/A''))
       \<and> api_calls (process_single_csv ev name w) = api_calls w
       \<and> mail_attempts (process_single_csv ev name w) = mail_attempts w
       \<and> name \<notin> fst ` set (incoming (process_single_csv ev name w))
       \<and> map_of (processed (process_single_csv ev name w)) (dest_name ev name w)
         = Some (Records (header # rest) None)"
proof -
  let ?rows = "DictReader (header # rest)"
  let ?r = "new_record name w"
  let ?w1 = "w\<lparr>csv_records := csv_records w @ [?r]\<rparr>"
  let ?w2 = "?w1\<lparr>email_records := email_records ?w1 @ map (missing_row_record ?r) ?rows\<rparr>"
  let ?n = "int (length ?rows)"
  have made: "\<forall>row \<in> set ?rows. \<exists>fields. row = make_row header fields"
    by (auto simp add: DictReader_def)
  have empty: "\<forall>row \<in> set ?rows. trimmed row ''zip'' = [] \<or> trimmed row ''email'' = []"
  proof
    fix row assume "row \<in> set ?rows"
    then obtain fields where row: "row = make_row header fields" using made by blast
    show "trimmed row ''zip'' = [] \<or> trimmed row ''email'' = []"
      using assms(2) trimmed_absent[of "''zip''" header fields]
        trimmed_absent[of "''email''" header fields]
      unfolding row by blast
  qed
  have loop: "rows_loop ev ?r ?rows (0, 0, 0) ?w1 = (Inr (?n, 0, ?n), ?w2)"
    using rows_loop_all_missing[of ?rows ev ?r 0 0 0 ?w1] assms(3) empty by simp
  have of1: "open_file ?w1 name = Records (header # rest) None"
    using assms(1) by (simp add: open_file_def)
  have rr: "reading_result ev name w = (Inr (?n, 0, ?n), ?w2)"
    using loop of1
    by (simp add: reading_result_def create_csv_record_def new_record_def read_rows_def Let_def)
  have content: "map_of (incoming w) name = Some (Records (header # rest) None)"
    using assms(1) by (auto simp add: open_file_def split: option.splits)
  from process_single_csv_read_success[OF rr] assms(4) content
  have res: "process_single_csv ev name w
         = ?w2\<lparr>csv_records := csv_records w @ [counted ?r (?n, 0, ?n) ''completed''],
               clock_reads := Suc (clock_reads w),
               incoming := filter (\<lambda>p. fst p \<noteq> name) (incoming w),
               processed := (dest_name ev name w, Records (header # rest) None)
                            # filter (\<lambda>p. fst p \<noteq> dest_name ev name w) (processed w)\<rparr>"
    by auto
  have cr: "csv_records (process_single_csv ev name w)
            = csv_records w @ [counted ?r (?n, 0, ?n) ''completed'']"
    unfolding res by simp
  have pkc: "pk (counted ?r (?n, 0, ?n) ''completed'') = fresh_pk w"
    by (simp add: counted_def new_record_def)
  have fr: "find_record (process_single_csv ev name w) (fresh_pk w)
            = Some (counted ?r (?n, 0, ?n) ''completed'')"
    using process_single_csv_find[OF cr pkc] .
  have rec: "counted ?r (?n, 0, ?n) ''completed''
             = \<lparr>pk = fresh_pk w, filename = name, total_rows = ?n, successful_rows = 0,
                failed_rows = ?n, status = ''completed''\<rparr>"
    by (simp add: counted_def new_record_def)
  have er: "email_records (process_single_csv ev name w)
            = email_records w @ map (missing_row_record ?r) ?rows"
    unfolding res by simp
  have fields: "\<forall>row \<in> set ?rows.
            processing_record (missing_row_record ?r row) = fresh_pk w
            \<and> success (missing_row_record ?r row) = False
            \<and> error_message (missing_row_record ?r row) = Some ''Missing zip code or email''
            \<and> (''zip'' \<notin> set header \<longrightarrow> zip_code (missing_row_record ?r row) = ''N/A'')
            \<and> (''email'' \<notin> set header \<longrightarrow>
                 email_address (missing_row_record ?r row) = ''N/A'')"
    using made trimmed_absent
    by (auto simp add: missing_row_record_def missing_record_def new_record_def)
  have ac: "api_calls (process_single_csv ev name w) = api_calls w"
    and ma: "mail_attempts (process_single_csv ev name w) = mail_attempts w"
    unfolding res by simp_all
  have gone: "name \<notin> fst ` set (incoming (process_single_csv ev name w))"
    unfolding res by auto
  have there: "map_of (processed (process_single_csv ev name w)) (dest_name ev name w)
               = Some (Records (header # rest) None)"
    unfolding res by simp
  show ?thesis using fr rec er fields ac ma gone there by simp
qed

text \<open>
  C10, as stated, fails: for a file without a \<^verbatim>\<open>zip\<close> column whose second data row makes
  the reader raise, the pass ends with the record \<open>failed\<close>, all counts zero, and the
  file left in the incoming directory.
\<close>

theorem missing_column_read_error:
  "process_csv_files scenario_env (example_world [(''input.csv'', no_zip_broken_file)])
   = (example_world [(''input.csv'', no_zip_broken_file)])
       \<lparr>csv_records :=
          [\<lparr>pk = 1, filename = ''input.csv'', total_rows = 0, successful_rows = 0,
            failed_rows = 0, status = ''failed''\<rparr>],
        email_records :=
          [\<lparr>processing_record = 1, email_address = ''a@x.com'', zip_code = ''N/A'',
            state = JNull, city = JNull, success = False,
            error_message = Some ''Missing zip code or email''\<rparr>]\<rparr>"
  by (simp add: process_csv_files_def glob_csv_def endswith_def no_zip_broken_file_def
      eval_defs)

theorem missing_column_file_witness:
  "open_file (example_world [(''input.csv'', no_zip_file)]) ''input.csv''
     = Records [[''email''], [''a@x.com''], ['' '']] None
   \<and> ''zip'' \<notin> set [''email'']
   \<and> process_single_csv scenario_env ''input.csv'' (example_world [(''input.csv'', no_zip_file)])
     = \<lparr>incoming = [],
        processed = [(''input_20240115_093000.csv'', no_zip_file)],
        csv_records =
          [\<lparr>pk = 1, filename = ''input.csv'', total_rows = 2, successful_rows = 0,
            failed_rows = 2, status = ''completed''\<rparr>],
        email_records =
          [\<lparr>processing_record = 1, email_address = ''a@x.com'', zip_code = ''N/A'',
            state = JNull, city = JNull, success = False,
            error_message = Some ''Missing zip code or email''\<rparr>,
           \<lparr>processing_record = 1, email_address = ''N/A'', zip_code = ''N/A'',
            state = JNull, city = JNull, success = False,
            error_message = Some ''Missing zip code or email''\<rparr>],
        api_calls = [], mail_attempts = [], outbox = [], clock_reads = 1\<rparr>"
  using missing_column_file
          [of "example_world [(''input.csv'', no_zip_file)]" "''input.csv''" "[''email'']"
              "[[''a@x.com''], ['' '']]" scenario_env]
  by (simp add: no_zip_file_def eval_defs)

text \<open>
  A row shorter than the header: \<^verbatim>\<open>DictReader\<close> gives \<^verbatim>\<open>None\<close> for the \<^verbatim>\<open>email\<close> field,
  \<^verbatim>\<open>.strip()\<close> raises \<^verbatim>\<open>AttributeError\<close>, and the record of the file ends as \<open>failed\<close>
  without any email record.
\<close>

lemma short_row_aborts_file:
  "process_csv_files scenario_env (example_world [(''input.csv'', short_row_file)])
   = (example_world [(''input.csv'', short_row_file)])
       \<lparr>csv_records :=
          [\<lparr>pk = 1, filename = ''input.csv'', total_rows = 0, successful_rows = 0,
            failed_rows = 0, status = ''failed''\<rparr>]\<rparr>
   \<and> (case fst (reading_result scenario_env ''input.csv''
                  (example_world [(''input.csv'', short_row_file)])) of
        Inl e \<Rightarrow> class_of e = AttributeError
      | Inr c \<Rightarrow> False)"
  by (simp add: process_csv_files_def glob_csv_def endswith_def short_row_file_def
      reading_result_def eval_defs)

end
